theory Spec2Isabelle
  imports Main "HOL-Library.AList" "HOL-Library.Multiset" "HOL-Library.Word"
begin

section \<open>The Pi-Hole API client \<open>gohole\<close> (main.go)\<close>

text \<open>
  The package is a thin client: every accessor builds a URL from the connector's host and
  token, performs one HTTP GET, reads the whole body and (except \<open>RecentBlocked\<close>) hands
  it to \<open>json.Unmarshal\<close>. Any failure on that path ends in \<open>log.Fatal\<close>, which
  terminates the process. The presenters print a record on standard output.

  The embedding is by explicit state passing. What lies outside the package is a parameter
  of the model, and the theorems hold for every value of it:
  \<^item> the network and the server: the reply to a GET;
  \<^item> the lexical layer of \<open>encoding/json\<close>: from bytes to a JSON value;
  \<^item> the name folding \<open>encoding/json\<close> uses to match object keys against field tags;
  \<^item> \<open>strconv.ParseFloat\<close> at 32 bits;
  \<^item> the order in which \<open>range\<close> visits the entries of a map.
\<close>

subsection \<open>Data\<close>

type_synonym bytes = string

text \<open>\<open>type PiHConnector struct\<close>, lines 20-23.\<close>

record PiHConnector =
  Host :: string
  Token :: string

text \<open>
  What \<open>http.Get\<close> followed by \<open>io.ReadAll\<close> can produce: an error of the first, an
  error of the second, or the whole body. A response with a status other than 200 is a
  body like any other: \<open>http.Get\<close> reports no error for it.
\<close>

datatype reply = GetFailed | ReadFailed | Body bytes

text \<open>
  The three places of a call to \<open>log.Fatal\<close>: it prints the error and calls
  \<open>os.Exit(1)\<close>, so the accessor does not return.
\<close>

datatype fatal = FatalGet | FatalRead | FatalUnmarshal

text \<open>
  The program state an operation of the package can touch: the connector behind the
  pointer receiver, the URLs requested so far (oldest first) and the writes made on
  standard output (one element for each call of \<open>fmt.Println\<close> or \<open>fmt.Printf\<close>).
\<close>

record state =
  conn :: PiHConnector
  requests :: "string list"
  stdout :: "string list"

text \<open>Values of JSON. A number keeps its literal, as the decoder of Go does.\<close>

datatype json =
    JNull
  | JBool bool
  | JNumber string
  | JString string
  | JArray "json list"
  | JObject "(string \<times> json) list"

text \<open>
  The surroundings of the package. \<open>http_get\<close> receives the URLs requested before and
  the URL requested now, so that a server with state is covered; \<open>json_scan\<close> is
  \<open>None\<close> where the body is not JSON text.
\<close>

record env =
  http_get :: "string list \<Rightarrow> string \<Rightarrow> reply"
  json_scan :: "bytes \<Rightarrow> json option"
  fold_name :: "string \<Rightarrow> string"
  parse_float32 :: "string \<Rightarrow> 32 word option"

subsection \<open>The base request: \<open>PiHConnector.Get\<close>, lines 117-135\<close>

definition requestString :: "PiHConnector \<Rightarrow> string \<Rightarrow> string" where
  "requestString ph endpoint =
     (let requestString = ''http://'' @ Host ph @ ''/admin/api.php?'' @ endpoint
      in if Token ph \<noteq> [] then requestString @ ''&auth='' @ Token ph else requestString)"

definition PiHConnector_Get :: "env \<Rightarrow> string \<Rightarrow> state \<Rightarrow> (fatal + bytes) \<times> state" where
  "PiHConnector_Get e endpoint s =
     (let url = requestString (conn s) endpoint;
          s' = s\<lparr>requests := requests s @ [url]\<rparr>
      in case http_get e (requests s) url of
           GetFailed \<Rightarrow> (Inl FatalGet, s')
         | ReadFailed \<Rightarrow> (Inl FatalRead, s')
         | Body body \<Rightarrow> (Inr body, s'))"

subsection \<open>\<open>strconv.Itoa\<close> and \<open>strconv.ParseInt\<close>\<close>

text \<open>
  \<open>Itoa\<close> writes the sign and then the digits of the magnitude, most significant first,
  taking each digit from the string \<open>0123456789\<close>. A Go \<open>int\<close> is modelled by \<open>int\<close>:
  \<open>Itoa\<close> does no arithmetic that could overflow.
\<close>

definition digit :: "nat \<Rightarrow> char" where
  "digit d = ''0123456789'' ! d"

function formatBits :: "nat \<Rightarrow> string" where
  "formatBits u = (if u < 10 then [digit u] else formatBits (u div 10) @ [digit (u mod 10)])"
  by pat_completeness auto
termination
  by (relation "measure id") auto

declare formatBits.simps [simp del]

definition Itoa :: "int \<Rightarrow> string" where
  "Itoa i = (if i < 0 then CHR ''-'' # formatBits (nat (- i)) else formatBits (nat i))"

text \<open>Reading a decimal numeral: the value of a digit, of a run of digits, of a signed run.\<close>

definition is_digit :: "char \<Rightarrow> bool" where
  "is_digit c = (c \<in> set ''0123456789'')"

definition digit_value :: "char \<Rightarrow> nat" where
  "digit_value c = of_char c - 48"

definition digits_value :: "string \<Rightarrow> nat" where
  "digits_value ds = foldl (\<lambda>a c. 10 * a + digit_value c) 0 ds"

definition decimal_value :: "string \<Rightarrow> int" where
  "decimal_value str =
     (case str of
        [] \<Rightarrow> 0
      | c # r \<Rightarrow> if c = CHR ''-'' then - int (digits_value r)
                else if c = CHR ''+'' then int (digits_value r)
                else int (digits_value str))"

text \<open>
  \<open>strconv.ParseInt(s, 10, 64)\<close>: an optional sign and at least one digit, nothing
  else, and a value that fits 64 bits; otherwise an error.
\<close>

definition ParseInt64 :: "string \<Rightarrow> int option" where
  "ParseInt64 str =
     (let ds = (case str of
                  [] \<Rightarrow> []
                | c # r \<Rightarrow> if c = CHR ''-'' \<or> c = CHR ''+'' then r else str)
      in if ds = [] \<or> \<not> list_all is_digit ds then None
         else if - (2 ^ 63) \<le> decimal_value str \<and> decimal_value str < 2 ^ 63
              then Some (decimal_value str)
              else None)"

subsection \<open>\<open>json.Unmarshal\<close>: storing a JSON value into a Go value\<close>

text \<open>
  \<open>Unmarshal\<close> first checks that the whole input is JSON text and then stores the value
  into the target, directed by the target's type. A JSON value of the wrong kind for its
  target is an \<open>UnmarshalTypeError\<close>. Go goes on storing the rest and returns the first
  such error at the end; every caller in this package calls \<open>log.Fatal\<close> on any error,
  so the model stops at the first one: \<open>None\<close> is \<open>err != nil\<close>. Each function takes
  the JSON value and the current value of the target. JSON \<open>null\<close> leaves a string, a
  number, a boolean and a struct as they are, and makes a map or a slice \<open>nil\<close>.
\<close>

fun store_string :: "json \<Rightarrow> string \<Rightarrow> string option" where
  "store_string (JString x) old = Some x"
| "store_string JNull old = Some old"
| "store_string _ old = None"

fun store_bool :: "json \<Rightarrow> bool \<Rightarrow> bool option" where
  "store_bool (JBool b) old = Some b"
| "store_bool JNull old = Some old"
| "store_bool _ old = None"

text \<open>\<open>int\<close> and \<open>int64\<close>, both of 64 bits.\<close>

fun store_int :: "json \<Rightarrow> int \<Rightarrow> int option" where
  "store_int (JNumber lit) old = ParseInt64 lit"
| "store_int JNull old = Some old"
| "store_int _ old = None"

fun store_float32 :: "(string \<Rightarrow> 32 word option) \<Rightarrow> json \<Rightarrow> 32 word \<Rightarrow> 32 word option" where
  "store_float32 pf (JNumber lit) old = pf lit"
| "store_float32 pf JNull old = Some old"
| "store_float32 pf _ old = None"

text \<open>
  A Go map with string keys is an association list with distinct keys; the order of the
  list has no meaning (see \<open>range_order\<close>). Each member of the JSON object is stored into
  a fresh zero element, which is then put into the map under the member's key.
\<close>

type_synonym 'v gomap = "(string \<times> 'v) list"

definition index :: "string gomap \<Rightarrow> string \<Rightarrow> string" where
  "index m k = (case map_of m k of None \<Rightarrow> [] | Some v \<Rightarrow> v)"

fun store_members ::
  "(json \<Rightarrow> 'v \<Rightarrow> 'v option) \<Rightarrow> 'v \<Rightarrow> (string \<times> json) list \<Rightarrow> 'v gomap \<Rightarrow> 'v gomap option" where
  "store_members st z [] m = Some m"
| "store_members st z ((k, j) # ms) m =
     (case st j z of
        None \<Rightarrow> None
      | Some v \<Rightarrow> store_members st z ms (AList.update k v m))"

fun store_map :: "(json \<Rightarrow> 'v \<Rightarrow> 'v option) \<Rightarrow> 'v \<Rightarrow> json \<Rightarrow> 'v gomap \<Rightarrow> 'v gomap option" where
  "store_map st z (JObject ms) m = store_members st z ms m"
| "store_map st z JNull m = Some []"
| "store_map st z _ m = None"

text \<open>A slice, stored into a target that is \<open>nil\<close> before: every element starts from zero.\<close>

fun store_elems :: "(json \<Rightarrow> 'v \<Rightarrow> 'v option) \<Rightarrow> 'v \<Rightarrow> json list \<Rightarrow> 'v list option" where
  "store_elems st z [] = Some []"
| "store_elems st z (j # js) =
     (case st j z of
        None \<Rightarrow> None
      | Some v \<Rightarrow> (case store_elems st z js of None \<Rightarrow> None | Some vs \<Rightarrow> Some (v # vs)))"

fun store_slice :: "(json \<Rightarrow> 'v \<Rightarrow> 'v option) \<Rightarrow> 'v \<Rightarrow> json \<Rightarrow> 'v list \<Rightarrow> 'v list option" where
  "store_slice st z (JArray js) old = store_elems st z js"
| "store_slice st z JNull old = Some []"
| "store_slice st z _ old = None"

text \<open>
  A struct. The field for a key is the field whose tag is the key or, when there is none,
  the first field in declaration order whose folded tag is the folded key; a key with no
  field is skipped. Members are stored in the order of the object, so of two members for
  one field the later one stays.
\<close>

definition field_for :: "(string \<Rightarrow> string) \<Rightarrow> string list \<Rightarrow> string \<Rightarrow> string option" where
  "field_for fd tags key =
     (if key \<in> set tags then Some key else find (\<lambda>t. fd t = fd key) tags)"

fun store_fields ::
  "(string \<Rightarrow> string option) \<Rightarrow> (string \<Rightarrow> json \<Rightarrow> 'r \<Rightarrow> 'r option) \<Rightarrow>
     (string \<times> json) list \<Rightarrow> 'r \<Rightarrow> 'r option" where
  "store_fields fld st [] r = Some r"
| "store_fields fld st ((k, j) # ms) r =
     (case fld k of
        None \<Rightarrow> store_fields fld st ms r
      | Some t \<Rightarrow> (case st t j r of None \<Rightarrow> None | Some r' \<Rightarrow> store_fields fld st ms r'))"

fun store_struct ::
  "(string \<Rightarrow> string option) \<Rightarrow> (string \<Rightarrow> json \<Rightarrow> 'r \<Rightarrow> 'r option) \<Rightarrow> json \<Rightarrow> 'r \<Rightarrow> 'r option" where
  "store_struct fld st (JObject ms) r = store_fields fld st ms r"
| "store_struct fld st JNull r = Some r"
| "store_struct fld st _ r = None"

subsection \<open>The records of the package, lines 25-114, and how \<open>Unmarshal\<close> fills them\<close>

text \<open>
  For each struct: the record, its zero value, the tags of its fields in declaration order
  and the store into the field of a tag. \<open>float32\<close> is the 32 bits of the number.
\<close>

record PiHType =
  Type :: string

definition PiHType_zero :: PiHType where
  "PiHType_zero = \<lparr>Type = []\<rparr>"

definition PiHType_store :: "string \<Rightarrow> json \<Rightarrow> PiHType \<Rightarrow> PiHType option" where
  "PiHType_store tag j r =
     (if tag = ''type'' then map_option (\<lambda>v. r\<lparr>Type := v\<rparr>) (store_string j (Type r))
      else Some r)"

record PiHVersion =
  Version :: "32 word"

definition PiHVersion_zero :: PiHVersion where
  "PiHVersion_zero = \<lparr>Version = 0\<rparr>"

definition PiHVersion_store ::
  "(string \<Rightarrow> 32 word option) \<Rightarrow> string \<Rightarrow> json \<Rightarrow> PiHVersion \<Rightarrow> PiHVersion option" where
  "PiHVersion_store pf tag j r =
     (if tag = ''version''
      then map_option (\<lambda>v. r\<lparr>Version := v\<rparr>) (store_float32 pf j (Version r))
      else Some r)"

record Relative =
  Days :: int
  Hours :: int
  Minutes :: int

definition Relative_zero :: Relative where
  "Relative_zero = \<lparr>Days = 0, Hours = 0, Minutes = 0\<rparr>"

definition Relative_store :: "string \<Rightarrow> json \<Rightarrow> Relative \<Rightarrow> Relative option" where
  "Relative_store tag j r =
     (if tag = ''days'' then map_option (\<lambda>v. r\<lparr>Days := v\<rparr>) (store_int j (Days r))
      else if tag = ''hours'' then map_option (\<lambda>v. r\<lparr>Hours := v\<rparr>) (store_int j (Hours r))
      else if tag = ''minutes''
        then map_option (\<lambda>v. r\<lparr>Minutes := v\<rparr>) (store_int j (Minutes r))
      else Some r)"

definition store_Relative :: "(string \<Rightarrow> string) \<Rightarrow> json \<Rightarrow> Relative \<Rightarrow> Relative option" where
  "store_Relative fd =
     store_struct (field_for fd [''days'', ''hours'', ''minutes'']) Relative_store"

record GravityLastUpdated =
  FileExists :: bool
  Absolute :: int
  Relative :: Relative

definition GravityLastUpdated_zero :: GravityLastUpdated where
  "GravityLastUpdated_zero = \<lparr>FileExists = False, Absolute = 0, Relative = Relative_zero\<rparr>"

definition GravityLastUpdated_store ::
  "(string \<Rightarrow> string) \<Rightarrow> string \<Rightarrow> json \<Rightarrow> GravityLastUpdated \<Rightarrow> GravityLastUpdated option" where
  "GravityLastUpdated_store fd tag j r =
     (if tag = ''file_exists''
        then map_option (\<lambda>v. r\<lparr>FileExists := v\<rparr>) (store_bool j (FileExists r))
      else if tag = ''absolute''
        then map_option (\<lambda>v. r\<lparr>Absolute := v\<rparr>) (store_int j (Absolute r))
      else if tag = ''relative''
        then map_option (\<lambda>v. r\<lparr>Relative := v\<rparr>) (store_Relative fd j (Relative r))
      else Some r)"

definition store_GravityLastUpdated ::
  "(string \<Rightarrow> string) \<Rightarrow> json \<Rightarrow> GravityLastUpdated \<Rightarrow> GravityLastUpdated option" where
  "store_GravityLastUpdated fd =
     store_struct (field_for fd [''file_exists'', ''absolute'', ''relative''])
       (GravityLastUpdated_store fd)"

record PiHSummary =
  DomainsBeingBlocked :: string
  DNSQueriesToday :: string
  AdsBlockedToday :: string
  AdsPercentageToday :: string
  UniqueDomains :: string
  QueriesForwarded :: string
  QueriesCached :: string
  ClientsEverSeen :: string
  UniqueClients :: string
  DNSQueriesAllTypes :: string
  ReplyUNKNOWN :: string
  ReplyNODATA :: string
  ReplyNXDOMAIN :: string
  ReplyCNAME :: string
  ReplyIP :: string
  ReplyDOMAIN :: string
  ReplyRRNAME :: string
  ReplySERVFAIL :: string
  ReplyREFUSED :: string
  ReplyNOTIMP :: string
  ReplyOTHER :: string
  ReplyDNSSEC :: string
  ReplyNONE :: string
  ReplyBLOB :: string
  DNSQueriesAllReplies :: string
  PrivacyLevel :: string
  Status :: string
  GravityLastUpdated :: GravityLastUpdated

definition PiHSummary_zero :: PiHSummary where
  "PiHSummary_zero =
     \<lparr>DomainsBeingBlocked = [],
      DNSQueriesToday = [],
      AdsBlockedToday = [],
      AdsPercentageToday = [],
      UniqueDomains = [],
      QueriesForwarded = [],
      QueriesCached = [],
      ClientsEverSeen = [],
      UniqueClients = [],
      DNSQueriesAllTypes = [],
      ReplyUNKNOWN = [],
      ReplyNODATA = [],
      ReplyNXDOMAIN = [],
      ReplyCNAME = [],
      ReplyIP = [],
      ReplyDOMAIN = [],
      ReplyRRNAME = [],
      ReplySERVFAIL = [],
      ReplyREFUSED = [],
      ReplyNOTIMP = [],
      ReplyOTHER = [],
      ReplyDNSSEC = [],
      ReplyNONE = [],
      ReplyBLOB = [],
      DNSQueriesAllReplies = [],
      PrivacyLevel = [],
      Status = [],
      GravityLastUpdated = GravityLastUpdated_zero\<rparr>"

definition PiHSummary_tags :: "string list" where
  "PiHSummary_tags =
     [''domains_being_blocked'',
      ''dns_queries_today'',
      ''ads_blocked_today'',
      ''ads_percentage_today'',
      ''unique_domains'',
      ''queries_forwarded'',
      ''queries_cached'',
      ''clients_ever_seen'',
      ''unique_clients'',
      ''dns_queries_all_types'',
      ''reply_UNKNOWN'',
      ''reply_NODATA'',
      ''reply_NXDOMAIN'',
      ''reply_CNAME'',
      ''reply_IP'',
      ''reply_DOMAIN'',
      ''reply_RRNAME'',
      ''reply_SERVFAIL'',
      ''reply_REFUSED'',
      ''reply_NOTIMP'',
      ''reply_OTHER'',
      ''reply_DNSSEC'',
      ''reply_NONE'',
      ''reply_BLOB'',
      ''dns_queries_all_replies'',
      ''privacy_level'',
      ''status'',
      ''gravity_last_updated'']"

definition PiHSummary_store ::
  "(string \<Rightarrow> string) \<Rightarrow> string \<Rightarrow> json \<Rightarrow> PiHSummary \<Rightarrow> PiHSummary option" where
  "PiHSummary_store fd tag j r =
     (if tag = ''domains_being_blocked''
        then map_option (\<lambda>v. r\<lparr>DomainsBeingBlocked := v\<rparr>) (store_string j (DomainsBeingBlocked r))
      else if tag = ''dns_queries_today''
        then map_option (\<lambda>v. r\<lparr>DNSQueriesToday := v\<rparr>) (store_string j (DNSQueriesToday r))
      else if tag = ''ads_blocked_today''
        then map_option (\<lambda>v. r\<lparr>AdsBlockedToday := v\<rparr>) (store_string j (AdsBlockedToday r))
      else if tag = ''ads_percentage_today''
        then map_option (\<lambda>v. r\<lparr>AdsPercentageToday := v\<rparr>) (store_string j (AdsPercentageToday r))
      else if tag = ''unique_domains''
        then map_option (\<lambda>v. r\<lparr>UniqueDomains := v\<rparr>) (store_string j (UniqueDomains r))
      else if tag = ''queries_forwarded''
        then map_option (\<lambda>v. r\<lparr>QueriesForwarded := v\<rparr>) (store_string j (QueriesForwarded r))
      else if tag = ''queries_cached''
        then map_option (\<lambda>v. r\<lparr>QueriesCached := v\<rparr>) (store_string j (QueriesCached r))
      else if tag = ''clients_ever_seen''
        then map_option (\<lambda>v. r\<lparr>ClientsEverSeen := v\<rparr>) (store_string j (ClientsEverSeen r))
      else if tag = ''unique_clients''
        then map_option (\<lambda>v. r\<lparr>UniqueClients := v\<rparr>) (store_string j (UniqueClients r))
      else if tag = ''dns_queries_all_types''
        then map_option (\<lambda>v. r\<lparr>DNSQueriesAllTypes := v\<rparr>) (store_string j (DNSQueriesAllTypes r))
      else if tag = ''reply_UNKNOWN''
        then map_option (\<lambda>v. r\<lparr>ReplyUNKNOWN := v\<rparr>) (store_string j (ReplyUNKNOWN r))
      else if tag = ''reply_NODATA''
        then map_option (\<lambda>v. r\<lparr>ReplyNODATA := v\<rparr>) (store_string j (ReplyNODATA r))
      else if tag = ''reply_NXDOMAIN''
        then map_option (\<lambda>v. r\<lparr>ReplyNXDOMAIN := v\<rparr>) (store_string j (ReplyNXDOMAIN r))
      else if tag = ''reply_CNAME''
        then map_option (\<lambda>v. r\<lparr>ReplyCNAME := v\<rparr>) (store_string j (ReplyCNAME r))
      else if tag = ''reply_IP''
        then map_option (\<lambda>v. r\<lparr>ReplyIP := v\<rparr>) (store_string j (ReplyIP r))
      else if tag = ''reply_DOMAIN''
        then map_option (\<lambda>v. r\<lparr>ReplyDOMAIN := v\<rparr>) (store_string j (ReplyDOMAIN r))
      else if tag = ''reply_RRNAME''
        then map_option (\<lambda>v. r\<lparr>ReplyRRNAME := v\<rparr>) (store_string j (ReplyRRNAME r))
      else if tag = ''reply_SERVFAIL''
        then map_option (\<lambda>v. r\<lparr>ReplySERVFAIL := v\<rparr>) (store_string j (ReplySERVFAIL r))
      else if tag = ''reply_REFUSED''
        then map_option (\<lambda>v. r\<lparr>ReplyREFUSED := v\<rparr>) (store_string j (ReplyREFUSED r))
      else if tag = ''reply_NOTIMP''
        then map_option (\<lambda>v. r\<lparr>ReplyNOTIMP := v\<rparr>) (store_string j (ReplyNOTIMP r))
      else if tag = ''reply_OTHER''
        then map_option (\<lambda>v. r\<lparr>ReplyOTHER := v\<rparr>) (store_string j (ReplyOTHER r))
      else if tag = ''reply_DNSSEC''
        then map_option (\<lambda>v. r\<lparr>ReplyDNSSEC := v\<rparr>) (store_string j (ReplyDNSSEC r))
      else if tag = ''reply_NONE''
        then map_option (\<lambda>v. r\<lparr>ReplyNONE := v\<rparr>) (store_string j (ReplyNONE r))
      else if tag = ''reply_BLOB''
        then map_option (\<lambda>v. r\<lparr>ReplyBLOB := v\<rparr>) (store_string j (ReplyBLOB r))
      else if tag = ''dns_queries_all_replies''
        then map_option (\<lambda>v. r\<lparr>DNSQueriesAllReplies := v\<rparr>) (store_string j (DNSQueriesAllReplies r))
      else if tag = ''privacy_level''
        then map_option (\<lambda>v. r\<lparr>PrivacyLevel := v\<rparr>) (store_string j (PrivacyLevel r))
      else if tag = ''status''
        then map_option (\<lambda>v. r\<lparr>Status := v\<rparr>) (store_string j (Status r))
      else if tag = ''gravity_last_updated''
        then map_option (\<lambda>v. r\<lparr>GravityLastUpdated := v\<rparr>)
               (store_GravityLastUpdated fd j (GravityLastUpdated r))
      else Some r)"

text \<open>The fields of type \<open>string\<close>, each with its tag: all fields but the last.\<close>

definition PiHSummary_text_fields :: "PiHSummary \<Rightarrow> (string \<times> string) list" where
  "PiHSummary_text_fields r =
     [(''domains_being_blocked'', DomainsBeingBlocked r),
      (''dns_queries_today'', DNSQueriesToday r),
      (''ads_blocked_today'', AdsBlockedToday r),
      (''ads_percentage_today'', AdsPercentageToday r),
      (''unique_domains'', UniqueDomains r),
      (''queries_forwarded'', QueriesForwarded r),
      (''queries_cached'', QueriesCached r),
      (''clients_ever_seen'', ClientsEverSeen r),
      (''unique_clients'', UniqueClients r),
      (''dns_queries_all_types'', DNSQueriesAllTypes r),
      (''reply_UNKNOWN'', ReplyUNKNOWN r),
      (''reply_NODATA'', ReplyNODATA r),
      (''reply_NXDOMAIN'', ReplyNXDOMAIN r),
      (''reply_CNAME'', ReplyCNAME r),
      (''reply_IP'', ReplyIP r),
      (''reply_DOMAIN'', ReplyDOMAIN r),
      (''reply_RRNAME'', ReplyRRNAME r),
      (''reply_SERVFAIL'', ReplySERVFAIL r),
      (''reply_REFUSED'', ReplyREFUSED r),
      (''reply_NOTIMP'', ReplyNOTIMP r),
      (''reply_OTHER'', ReplyOTHER r),
      (''reply_DNSSEC'', ReplyDNSSEC r),
      (''reply_NONE'', ReplyNONE r),
      (''reply_BLOB'', ReplyBLOB r),
      (''dns_queries_all_replies'', DNSQueriesAllReplies r),
      (''privacy_level'', PrivacyLevel r),
      (''status'', Status r)]"

record PiHTimeData =
  AdsOverTime :: "int gomap"
  DomainsOverTime :: "int gomap"

definition PiHTimeData_zero :: PiHTimeData where
  "PiHTimeData_zero = \<lparr>AdsOverTime = [], DomainsOverTime = []\<rparr>"

definition PiHTimeData_store :: "string \<Rightarrow> json \<Rightarrow> PiHTimeData \<Rightarrow> PiHTimeData option" where
  "PiHTimeData_store tag j r =
     (if tag = ''ads_over_time''
        then map_option (\<lambda>v. r\<lparr>AdsOverTime := v\<rparr>) (store_map store_int 0 j (AdsOverTime r))
      else if tag = ''domains_over_time''
        then map_option (\<lambda>v. r\<lparr>DomainsOverTime := v\<rparr>)
               (store_map store_int 0 j (DomainsOverTime r))
      else Some r)"

record PiHTopItems =
  Queries :: "int gomap"
  Blocked :: "int gomap"

definition PiHTopItems_zero :: PiHTopItems where
  "PiHTopItems_zero = \<lparr>Queries = [], Blocked = []\<rparr>"

definition PiHTopItems_store :: "string \<Rightarrow> json \<Rightarrow> PiHTopItems \<Rightarrow> PiHTopItems option" where
  "PiHTopItems_store tag j r =
     (if tag = ''top_queries''
        then map_option (\<lambda>v. r\<lparr>Queries := v\<rparr>) (store_map store_int 0 j (Queries r))
      else if tag = ''top_ads''
        then map_option (\<lambda>v. r\<lparr>Blocked := v\<rparr>) (store_map store_int 0 j (Blocked r))
      else Some r)"

record PiHTopClients =
  Clients :: "int gomap"

definition PiHTopClients_zero :: PiHTopClients where
  "PiHTopClients_zero = \<lparr>Clients = []\<rparr>"

definition PiHTopClients_store :: "string \<Rightarrow> json \<Rightarrow> PiHTopClients \<Rightarrow> PiHTopClients option" where
  "PiHTopClients_store tag j r =
     (if tag = ''top_sources''
        then map_option (\<lambda>v. r\<lparr>Clients := v\<rparr>) (store_map store_int 0 j (Clients r))
      else Some r)"

record PiHForwardDestinations =
  Destinations :: "32 word gomap"

definition PiHForwardDestinations_zero :: PiHForwardDestinations where
  "PiHForwardDestinations_zero = \<lparr>Destinations = []\<rparr>"

definition PiHForwardDestinations_store ::
  "(string \<Rightarrow> 32 word option) \<Rightarrow> string \<Rightarrow> json \<Rightarrow> PiHForwardDestinations \<Rightarrow>
     PiHForwardDestinations option" where
  "PiHForwardDestinations_store pf tag j r =
     (if tag = ''forward_destinations''
        then map_option (\<lambda>v. r\<lparr>Destinations := v\<rparr>)
               (store_map (store_float32 pf) 0 j (Destinations r))
      else Some r)"

record PiHQueryTypes =
  Types :: "32 word gomap"

definition PiHQueryTypes_zero :: PiHQueryTypes where
  "PiHQueryTypes_zero = \<lparr>Types = []\<rparr>"

definition PiHQueryTypes_store ::
  "(string \<Rightarrow> 32 word option) \<Rightarrow> string \<Rightarrow> json \<Rightarrow> PiHQueryTypes \<Rightarrow> PiHQueryTypes option" where
  "PiHQueryTypes_store pf tag j r =
     (if tag = ''querytypes''
        then map_option (\<lambda>v. r\<lparr>Types := v\<rparr>) (store_map (store_float32 pf) 0 j (Types r))
      else Some r)"

record PiHQueries =
  Data :: "string list list"

definition PiHQueries_zero :: PiHQueries where
  "PiHQueries_zero = \<lparr>Data = []\<rparr>"

definition PiHQueries_store :: "string \<Rightarrow> json \<Rightarrow> PiHQueries \<Rightarrow> PiHQueries option" where
  "PiHQueries_store tag j r =
     (if tag = ''data''
        then map_option (\<lambda>v. r\<lparr>Data := v\<rparr>)
               (store_slice (store_slice store_string []) [] j (Data r))
      else Some r)"

text \<open>
  \<open>json.Unmarshal(bs, s)\<close> for a pointer \<open>s\<close> to a struct with the given tags and store,
  and for a pointer to a map from strings to strings.
\<close>

definition Unmarshal ::
  "env \<Rightarrow> string list \<Rightarrow> (string \<Rightarrow> json \<Rightarrow> 'r \<Rightarrow> 'r option) \<Rightarrow> bytes \<Rightarrow> 'r \<Rightarrow> 'r option" where
  "Unmarshal e tags st bs r =
     (case json_scan e bs of
        None \<Rightarrow> None
      | Some j \<Rightarrow> store_struct (field_for (fold_name e) tags) st j r)"

definition Unmarshal_map :: "env \<Rightarrow> bytes \<Rightarrow> string gomap \<Rightarrow> string gomap option" where
  "Unmarshal_map e bs m =
     (case json_scan e bs of
        None \<Rightarrow> None
      | Some j \<Rightarrow> store_map store_string [] j m)"

definition Unmarshal_PiHType :: "env \<Rightarrow> bytes \<Rightarrow> PiHType option" where
  "Unmarshal_PiHType e bs = Unmarshal e [''type''] PiHType_store bs PiHType_zero"

definition Unmarshal_PiHVersion :: "env \<Rightarrow> bytes \<Rightarrow> PiHVersion option" where
  "Unmarshal_PiHVersion e bs =
     Unmarshal e [''version''] (PiHVersion_store (parse_float32 e)) bs PiHVersion_zero"

definition Unmarshal_PiHSummary :: "env \<Rightarrow> bytes \<Rightarrow> PiHSummary option" where
  "Unmarshal_PiHSummary e bs =
     Unmarshal e PiHSummary_tags (PiHSummary_store (fold_name e)) bs PiHSummary_zero"

definition Unmarshal_PiHTimeData :: "env \<Rightarrow> bytes \<Rightarrow> PiHTimeData option" where
  "Unmarshal_PiHTimeData e bs =
     Unmarshal e [''ads_over_time'', ''domains_over_time''] PiHTimeData_store bs PiHTimeData_zero"

definition Unmarshal_PiHTopItems :: "env \<Rightarrow> bytes \<Rightarrow> PiHTopItems option" where
  "Unmarshal_PiHTopItems e bs =
     Unmarshal e [''top_queries'', ''top_ads''] PiHTopItems_store bs PiHTopItems_zero"

definition Unmarshal_PiHTopClients :: "env \<Rightarrow> bytes \<Rightarrow> PiHTopClients option" where
  "Unmarshal_PiHTopClients e bs =
     Unmarshal e [''top_sources''] PiHTopClients_store bs PiHTopClients_zero"

definition Unmarshal_PiHForwardDestinations ::
  "env \<Rightarrow> bytes \<Rightarrow> PiHForwardDestinations option" where
  "Unmarshal_PiHForwardDestinations e bs =
     Unmarshal e [''forward_destinations''] (PiHForwardDestinations_store (parse_float32 e)) bs
       PiHForwardDestinations_zero"

definition Unmarshal_PiHQueryTypes :: "env \<Rightarrow> bytes \<Rightarrow> PiHQueryTypes option" where
  "Unmarshal_PiHQueryTypes e bs =
     Unmarshal e [''querytypes''] (PiHQueryTypes_store (parse_float32 e)) bs PiHQueryTypes_zero"

definition Unmarshal_PiHQueries :: "env \<Rightarrow> bytes \<Rightarrow> PiHQueries option" where
  "Unmarshal_PiHQueries e bs = Unmarshal e [''data''] PiHQueries_store bs PiHQueries_zero"

subsection \<open>The accessors, lines 137-281\<close>

text \<open>
  \<open>if err != nil { log.Fatal(err) }\<close> after \<open>json.Unmarshal\<close>: the process ends, or the
  accessor goes on with the decoded value.
\<close>

definition or_fatal :: "'a option \<Rightarrow> fatal + 'a" where
  "or_fatal r = (case r of None \<Rightarrow> Inl FatalUnmarshal | Some v \<Rightarrow> Inr v)"

definition PiHConnector_Type :: "env \<Rightarrow> state \<Rightarrow> (fatal + PiHType) \<times> state" where
  "PiHConnector_Type e s =
     (case PiHConnector_Get e ''type'' s of
        (Inl f, s') \<Rightarrow> (Inl f, s')
      | (Inr bs, s') \<Rightarrow> (or_fatal (Unmarshal_PiHType e bs), s'))"

definition PiHConnector_Version :: "env \<Rightarrow> state \<Rightarrow> (fatal + PiHVersion) \<times> state" where
  "PiHConnector_Version e s =
     (case PiHConnector_Get e ''version'' s of
        (Inl f, s') \<Rightarrow> (Inl f, s')
      | (Inr bs, s') \<Rightarrow> (or_fatal (Unmarshal_PiHVersion e bs), s'))"

definition PiHConnector_Summary :: "env \<Rightarrow> state \<Rightarrow> (fatal + PiHSummary) \<times> state" where
  "PiHConnector_Summary e s =
     (case PiHConnector_Get e ''summary'' s of
        (Inl f, s') \<Rightarrow> (Inl f, s')
      | (Inr bs, s') \<Rightarrow> (or_fatal (Unmarshal_PiHSummary e bs), s'))"

definition PiHConnector_TimeData :: "env \<Rightarrow> state \<Rightarrow> (fatal + PiHTimeData) \<times> state" where
  "PiHConnector_TimeData e s =
     (case PiHConnector_Get e ''overTimeData10mins'' s of
        (Inl f, s') \<Rightarrow> (Inl f, s')
      | (Inr bs, s') \<Rightarrow> (or_fatal (Unmarshal_PiHTimeData e bs), s'))"

definition PiHConnector_Top :: "env \<Rightarrow> int \<Rightarrow> state \<Rightarrow> (fatal + PiHTopItems) \<times> state" where
  "PiHConnector_Top e n s =
     (case PiHConnector_Get e (''topItems='' @ Itoa n) s of
        (Inl f, s') \<Rightarrow> (Inl f, s')
      | (Inr bs, s') \<Rightarrow> (or_fatal (Unmarshal_PiHTopItems e bs), s'))"

definition PiHConnector_Clients :: "env \<Rightarrow> int \<Rightarrow> state \<Rightarrow> (fatal + PiHTopClients) \<times> state" where
  "PiHConnector_Clients e n s =
     (case PiHConnector_Get e (''topClients='' @ Itoa n) s of
        (Inl f, s') \<Rightarrow> (Inl f, s')
      | (Inr bs, s') \<Rightarrow> (or_fatal (Unmarshal_PiHTopClients e bs), s'))"

definition PiHConnector_ForwardDestinations ::
  "env \<Rightarrow> state \<Rightarrow> (fatal + PiHForwardDestinations) \<times> state" where
  "PiHConnector_ForwardDestinations e s =
     (case PiHConnector_Get e ''getForwardDestinations'' s of
        (Inl f, s') \<Rightarrow> (Inl f, s')
      | (Inr bs, s') \<Rightarrow> (or_fatal (Unmarshal_PiHForwardDestinations e bs), s'))"

definition PiHConnector_QueryTypes :: "env \<Rightarrow> state \<Rightarrow> (fatal + PiHQueryTypes) \<times> state" where
  "PiHConnector_QueryTypes e s =
     (case PiHConnector_Get e ''getQueryTypes'' s of
        (Inl f, s') \<Rightarrow> (Inl f, s')
      | (Inr bs, s') \<Rightarrow> (or_fatal (Unmarshal_PiHQueryTypes e bs), s'))"

definition PiHConnector_Queries :: "env \<Rightarrow> state \<Rightarrow> (fatal + PiHQueries) \<times> state" where
  "PiHConnector_Queries e s =
     (case PiHConnector_Get e ''getAllQueries'' s of
        (Inl f, s') \<Rightarrow> (Inl f, s')
      | (Inr bs, s') \<Rightarrow> (or_fatal (Unmarshal_PiHQueries e bs), s'))"

text \<open>A Go \<open>error\<close>: \<open>None\<close> is \<open>nil\<close>, \<open>Some msg\<close> is \<open>errors.New(msg)\<close>.\<close>

type_synonym error = "string option"

definition PiHConnector_Enable :: "env \<Rightarrow> state \<Rightarrow> (fatal + error) \<times> state" where
  "PiHConnector_Enable e s =
     (case PiHConnector_Get e ''enable'' s of
        (Inl f, s') \<Rightarrow> (Inl f, s')
      | (Inr bs, s') \<Rightarrow>
          (case or_fatal (Unmarshal_map e bs []) of
             Inl f \<Rightarrow> (Inl f, s')
           | Inr resp \<Rightarrow>
               if index resp ''status'' \<noteq> ''enabled''
               then (Inr (Some ''Something went wrong''), s')
               else (Inr None, s')))"

definition PiHConnector_Disable :: "env \<Rightarrow> state \<Rightarrow> (fatal + error) \<times> state" where
  "PiHConnector_Disable e s =
     (case PiHConnector_Get e ''disable'' s of
        (Inl f, s') \<Rightarrow> (Inl f, s')
      | (Inr bs, s') \<Rightarrow>
          (case or_fatal (Unmarshal_map e bs []) of
             Inl f \<Rightarrow> (Inl f, s')
           | Inr resp \<Rightarrow>
               if index resp ''status'' \<noteq> ''disabled''
               then (Inr (Some ''Something went wrong''), s')
               else (Inr None, s')))"

definition PiHConnector_RecentBlocked :: "env \<Rightarrow> state \<Rightarrow> (fatal + string) \<times> state" where
  "PiHConnector_RecentBlocked e s =
     (case PiHConnector_Get e ''recentBlocked'' s of
        (Inl f, s') \<Rightarrow> (Inl f, s')
      | (Inr bs, s') \<Rightarrow> (Inr bs, s'))"

subsection \<open>The presenters, lines 283-344\<close>

definition Printf :: "string \<Rightarrow> state \<Rightarrow> state" where
  "Printf txt s = s\<lparr>stdout := stdout s @ [txt]\<rparr>"

definition Println :: "string \<Rightarrow> state \<Rightarrow> state" where
  "Println txt s = Printf (txt @ [CHR 0x0A]) s"

definition PiHSummary_Show :: "PiHSummary \<Rightarrow> state \<Rightarrow> state" where
  "PiHSummary_Show ph s =
     (let s1 = Println ''=== 24h Summary:'' s;
          s2 = Printf (''- Blocked Domains: '' @ AdsBlockedToday ph @ [CHR 0x0A]) s1;
          s3 = Printf (''- Blocked Percentage: '' @ AdsPercentageToday ph @ [CHR 0x0A]) s2;
          s4 = Printf (''- Queries: '' @ DNSQueriesToday ph @ [CHR 0x0A]) s3
      in Printf (''- Clients Ever Seen: '' @ ClientsEverSeen ph @ [CHR 0x0A]) s4)"

text \<open>
  \<open>for k, v := range m\<close> visits every entry of the map once, in an order Go leaves
  unspecified and varies from one loop to the next. The order is chosen by a seed: each
  number of the seed picks the next entry among those not yet visited. Every seed gives a
  permutation of the entries and every permutation comes from a seed.
\<close>

fun range_order :: "nat list \<Rightarrow> 'a list \<Rightarrow> 'a list" where
  "range_order seed [] = []"
| "range_order [] xs = xs"
| "range_order (n # seed) xs =
     (let i = n mod length xs
      in xs ! i # range_order seed (take i xs @ drop (Suc i) xs))"

text \<open>
  The first loop of a presenter: \<open>reverseMap[v] = k\<close> and \<open>freq = append(freq, v)\<close> for
  the entries in the order of the visit.
\<close>

fun range_loop ::
  "(string \<times> int) list \<Rightarrow> (int \<rightharpoonup> string) \<times> int list \<Rightarrow> (int \<rightharpoonup> string) \<times> int list" where
  "range_loop [] acc = acc"
| "range_loop ((k, v) # kvs) (reverseMap, freq) = range_loop kvs (reverseMap(v \<mapsto> k), freq @ [v])"

text \<open>Reading a \<open>map[int]string\<close>: the empty string for a key that is not there.\<close>

definition at :: "(int \<rightharpoonup> string) \<Rightarrow> int \<Rightarrow> string" where
  "at reverseMap v = (case reverseMap v of None \<Rightarrow> [] | Some k \<Rightarrow> k)"

definition entry_line :: "string \<Rightarrow> int \<Rightarrow> string" where
  "entry_line name v = ''- '' @ name @ '' : '' @ Itoa v @ [CHR 0x0A]"

text \<open>
  The second loop, \<open>for i := len(freq) - 1; i >= 0; i--\<close>: the first argument is
  \<open>i + 1\<close>.
\<close>

fun print_loop :: "nat \<Rightarrow> (int \<rightharpoonup> string) \<Rightarrow> int list \<Rightarrow> state \<Rightarrow> state" where
  "print_loop 0 reverseMap freq s = s"
| "print_loop (Suc i) reverseMap freq s =
     print_loop i reverseMap freq (Printf (entry_line (at reverseMap (freq ! i)) (freq ! i)) s)"

definition PiHTopItems_ShowBlocked :: "nat list \<Rightarrow> PiHTopItems \<Rightarrow> state \<Rightarrow> state" where
  "PiHTopItems_ShowBlocked seed ph s =
     (let (reverseMapBlocked, freqBlocked) =
            range_loop (range_order seed (Blocked ph)) (Map.empty, []);
          freqBlocked = sort freqBlocked;
          s1 = Println ''=== Blocked domains over last 24h:'' s
      in print_loop (length freqBlocked) reverseMapBlocked freqBlocked s1)"

definition PiHTopItems_ShowQueries :: "nat list \<Rightarrow> PiHTopItems \<Rightarrow> state \<Rightarrow> state" where
  "PiHTopItems_ShowQueries seed ph s =
     (let (reverseMapQueries, freqQueries) =
            range_loop (range_order seed (Queries ph)) (Map.empty, []);
          freqQueries = sort freqQueries;
          s1 = Println ''=== Queries over last 24h:'' s
      in print_loop (length freqQueries) reverseMapQueries freqQueries s1)"

definition PiHTopClients_Show :: "nat list \<Rightarrow> PiHTopClients \<Rightarrow> state \<Rightarrow> state" where
  "PiHTopClients_Show seed ph s =
     (let (reverseMapClients, freqClients) =
            range_loop (range_order seed (Clients ph)) (Map.empty, []);
          freqClients = sort freqClients;
          s1 = Println ''=== Clients over last 24h:'' s
      in print_loop (length freqClients) reverseMapClients freqClients s1)"

subsection \<open>Calls and runs\<close>

text \<open>
  To speak of every accessor and of sequences of calls: a call of the package with its
  arguments (a presenter with its receiver and the seed of its \<open>range\<close>), what a call
  returns, and a run of calls one after the other, which ends with the last call or at
  the first \<open>log.Fatal\<close>.
\<close>

datatype call =
    CallType
  | CallVersion
  | CallSummary
  | CallTimeData
  | CallTop int
  | CallClients int
  | CallForwardDestinations
  | CallQueryTypes
  | CallQueries
  | CallEnable
  | CallDisable
  | CallRecentBlocked
  | CallSummaryShow PiHSummary
  | CallShowBlocked "nat list" PiHTopItems
  | CallShowQueries "nat list" PiHTopItems
  | CallClientsShow "nat list" PiHTopClients

datatype result =
    RType PiHType
  | RVersion PiHVersion
  | RSummary PiHSummary
  | RTimeData PiHTimeData
  | RTopItems PiHTopItems
  | RTopClients PiHTopClients
  | RForwardDestinations PiHForwardDestinations
  | RQueryTypes PiHQueryTypes
  | RQueries PiHQueries
  | RError error
  | RString string
  | RNothing

definition returning :: "('a \<Rightarrow> result) \<Rightarrow> (fatal + 'a) \<times> state \<Rightarrow> (fatal + result) \<times> state" where
  "returning wrap r = (map_sum (\<lambda>f. f) wrap (fst r), snd r)"

fun perform :: "env \<Rightarrow> call \<Rightarrow> state \<Rightarrow> (fatal + result) \<times> state" where
  "perform e CallType s = returning RType (PiHConnector_Type e s)"
| "perform e CallVersion s = returning RVersion (PiHConnector_Version e s)"
| "perform e CallSummary s = returning RSummary (PiHConnector_Summary e s)"
| "perform e CallTimeData s = returning RTimeData (PiHConnector_TimeData e s)"
| "perform e (CallTop n) s = returning RTopItems (PiHConnector_Top e n s)"
| "perform e (CallClients n) s = returning RTopClients (PiHConnector_Clients e n s)"
| "perform e CallForwardDestinations s =
     returning RForwardDestinations (PiHConnector_ForwardDestinations e s)"
| "perform e CallQueryTypes s = returning RQueryTypes (PiHConnector_QueryTypes e s)"
| "perform e CallQueries s = returning RQueries (PiHConnector_Queries e s)"
| "perform e CallEnable s = returning RError (PiHConnector_Enable e s)"
| "perform e CallDisable s = returning RError (PiHConnector_Disable e s)"
| "perform e CallRecentBlocked s = returning RString (PiHConnector_RecentBlocked e s)"
| "perform e (CallSummaryShow ph) s = (Inr RNothing, PiHSummary_Show ph s)"
| "perform e (CallShowBlocked seed ph) s = (Inr RNothing, PiHTopItems_ShowBlocked seed ph s)"
| "perform e (CallShowQueries seed ph) s = (Inr RNothing, PiHTopItems_ShowQueries seed ph s)"
| "perform e (CallClientsShow seed ph) s = (Inr RNothing, PiHTopClients_Show seed ph s)"

fun run :: "env \<Rightarrow> call list \<Rightarrow> state \<Rightarrow> state" where
  "run e [] s = s"
| "run e (c # cs) s =
     (case perform e c s of
        (Inl f, s') \<Rightarrow> s'
      | (Inr r, s') \<Rightarrow> run e cs s')"

text \<open>
  What it means for the result \<open>r\<close> of an accessor, called in state \<open>s\<close> with the
  query fragment \<open>frag\<close>, to be fatal on every failure: on an error of \<open>http.Get\<close>,
  on an error of \<open>io.ReadAll\<close>, and on a body for which \<open>fails\<close> holds.
\<close>

definition fatal_on_failure ::
  "env \<Rightarrow> state \<Rightarrow> string \<Rightarrow> (bytes \<Rightarrow> bool) \<Rightarrow> fatal + 'a \<Rightarrow> bool" where
  "fatal_on_failure e s frag fails r =
     ((http_get e (requests s) (requestString (conn s) frag) = GetFailed \<longrightarrow> r = Inl FatalGet) \<and>
      (http_get e (requests s) (requestString (conn s) frag) = ReadFailed \<longrightarrow> r = Inl FatalRead) \<and>
      (\<forall>bs. http_get e (requests s) (requestString (conn s) frag) = Body bs \<and> fails bs \<longrightarrow>
         r = Inl FatalUnmarshal))"

text \<open>
  For a presenter: the name of the last entry, in the order of the visit, whose frequency
  is \<open>v\<close> (the empty string when there is none), and the listing of a map under a title:
  the title, then one line for each frequency of the map, largest first, each with the
  name that is left for its frequency.
\<close>

definition survivor :: "(string \<times> int) list \<Rightarrow> int \<Rightarrow> string" where
  "survivor kvs v =
     (let es = filter (\<lambda>(k, v'). v' = v) kvs
      in if es = [] then [] else fst (last es))"

definition listing :: "string \<Rightarrow> nat list \<Rightarrow> int gomap \<Rightarrow> string list" where
  "listing title seed m =
     (title @ [CHR 0x0A]) #
     map (\<lambda>v. entry_line (survivor (range_order seed m) v) v) (rev (sort (map snd m)))"

text \<open>
  For \<open>Summary\<close>: the text that the members \<open>ms\<close> of a JSON object carry under the
  key \<open>t\<close>, or \<open>y\<close> when they carry none.
\<close>

definition sent :: "(string \<times> json) list \<Rightarrow> string \<Rightarrow> string \<Rightarrow> string" where
  "sent ms t y = (case map_of ms t of Some (JString x) \<Rightarrow> x | _ \<Rightarrow> y)"

subsection \<open>Sample values\<close>

text \<open>
  A connector, a state before any call, a frequency mapping, and surroundings in which
  every request gets the same reply and every body scans to the same JSON value.
\<close>

definition sample_conn :: PiHConnector where
  "sample_conn = \<lparr>Host = ''pi.hole'', Token = ''abc''\<rparr>"

definition sample_state :: state where
  "sample_state = \<lparr>conn = sample_conn, requests = [], stdout = []\<rparr>"

text \<open>The frequency mapping \<open>{"a.com": 5, "b.com": 9, "c.com": 5}\<close>.\<close>

definition sample_top :: "int gomap" where
  "sample_top = [(''a.com'', 5), (''b.com'', 9), (''c.com'', 5)]"

text \<open>
  The members of a \<open>summary\<close> object (some of the fields, as strings that look like
  numbers, and the nested record) and the JSON text of that object.
\<close>

definition sample_summary :: "(string \<times> json) list" where
  "sample_summary =
     [(''domains_being_blocked'', JString ''1,234''),
      (''ads_percentage_today'', JString ''12.5''),
      (''unique_clients'', JString ''7''),
      (''status'', JString ''enabled''),
      (''gravity_last_updated'',
         JObject [(''file_exists'', JBool True), (''absolute'', JNumber ''1700000000''),
                  (''relative'', JObject [(''days'', JNumber ''3'')])])]"

definition sample_summary_body :: bytes where
  "sample_summary_body =
     ''{\"domains_being_blocked\":\"1,234\",\"ads_percentage_today\":\"12.5\",'' @
     ''\"unique_clients\":\"7\",\"status\":\"enabled\",'' @
     ''\"gravity_last_updated\":{\"file_exists\":true,\"absolute\":1700000000,'' @
     ''\"relative\":{\"days\":3}}}''"

definition sample_env :: "reply \<Rightarrow> json option \<Rightarrow> env" where
  "sample_env r j =
     \<lparr>http_get = (\<lambda>before url. r), json_scan = (\<lambda>bs. j), fold_name = (\<lambda>name. name),
      parse_float32 = (\<lambda>lit. None)\<rparr>"

text \<open>
  Surroundings in which the reply is: \<open>{"status":"enabled"}\<close>; the empty object; an
  object without \<open>status\<close>; an object whose \<open>status\<close> is a number; one whose
  \<open>status\<close> is a boolean.
\<close>

definition env_enabled :: env where
  "env_enabled =
     sample_env (Body ''{\"status\":\"enabled\"}'')
       (Some (JObject [(''status'', JString ''enabled'')]))"

definition env_empty :: env where
  "env_empty = sample_env (Body ''{}'') (Some (JObject []))"

definition env_other :: env where
  "env_other = sample_env (Body ''{\"a\":1}'') (Some (JObject [(''a'', JNumber ''1'')]))"

definition env_number :: env where
  "env_number =
     sample_env (Body ''{\"status\":1}'') (Some (JObject [(''status'', JNumber ''1'')]))"

definition env_boolean :: env where
  "env_boolean =
     sample_env (Body ''{\"status\":true}'') (Some (JObject [(''status'', JBool True)]))"

section \<open>Properties\<close>

subsection \<open>The base request\<close>

text \<open>
  Claim C1. For every host, token and endpoint fragment, the one URL that \<open>Get\<close>
  requests is \<open>http://{host}/admin/api.php?{fragment}\<close>, followed by
  \<open>&auth={token}\<close> exactly when the token is not empty.
\<close>

theorem Get_url:
  "requests (snd (PiHConnector_Get e endpoint s)) =
     requests s @
       [''http://'' @ Host (conn s) @ ''/admin/api.php?'' @ endpoint @
          (if Token (conn s) = [] then [] else ''&auth='' @ Token (conn s))]"
  by (simp add: PiHConnector_Get_def requestString_def Let_def split: reply.split)

theorem Get_url_witness:
  "requests (snd (PiHConnector_Get (sample_env GetFailed None) ''summary'' sample_state)) =
     [''http://pi.hole/admin/api.php?summary&auth=abc''] \<and>
   requests (snd (PiHConnector_Get (sample_env GetFailed None) ''summary''
       (sample_state\<lparr>conn := \<lparr>Host = ''pi.hole'', Token = []\<rparr>\<rparr>))) =
     [''http://pi.hole/admin/api.php?summary'']"
  using Get_url [of "sample_env GetFailed None" "''summary''" sample_state]
    Get_url [of "sample_env GetFailed None" "''summary''"
      "sample_state\<lparr>conn := \<lparr>Host = ''pi.hole'', Token = []\<rparr>\<rparr>"]
  by (simp add: sample_state_def sample_conn_def)

subsection \<open>\<open>Enable\<close>, \<open>Disable\<close> and \<open>RecentBlocked\<close>\<close>

text \<open>
  Claim C2. \<open>Enable\<close> returns \<open>nil\<close> if and only if the body decodes as a map from
  strings to strings whose \<open>status\<close> is \<open>enabled\<close>; when the body decodes and
  \<open>status\<close> is anything else, or is not a key of the map, it returns the error
  \<open>Something went wrong\<close>. The same holds of \<open>Disable\<close> with \<open>disabled\<close>.
\<close>

theorem Enable_Disable_status:
  "(fst (PiHConnector_Enable e s) = Inr None \<longleftrightarrow>
      (\<exists>bs resp. http_get e (requests s) (requestString (conn s) ''enable'') = Body bs \<and>
         Unmarshal_map e bs [] = Some resp \<and> index resp ''status'' = ''enabled'')) \<and>
   (\<forall>bs resp. http_get e (requests s) (requestString (conn s) ''enable'') = Body bs \<and>
         Unmarshal_map e bs [] = Some resp \<and> index resp ''status'' \<noteq> ''enabled'' \<longrightarrow>
      fst (PiHConnector_Enable e s) = Inr (Some ''Something went wrong'')) \<and>
   (\<forall>bs resp. http_get e (requests s) (requestString (conn s) ''enable'') = Body bs \<and>
         Unmarshal_map e bs [] = Some resp \<and> map_of resp ''status'' = None \<longrightarrow>
      fst (PiHConnector_Enable e s) = Inr (Some ''Something went wrong'')) \<and>
   (fst (PiHConnector_Disable e s) = Inr None \<longleftrightarrow>
      (\<exists>bs resp. http_get e (requests s) (requestString (conn s) ''disable'') = Body bs \<and>
         Unmarshal_map e bs [] = Some resp \<and> index resp ''status'' = ''disabled'')) \<and>
   (\<forall>bs resp. http_get e (requests s) (requestString (conn s) ''disable'') = Body bs \<and>
         Unmarshal_map e bs [] = Some resp \<and> index resp ''status'' \<noteq> ''disabled'' \<longrightarrow>
      fst (PiHConnector_Disable e s) = Inr (Some ''Something went wrong'')) \<and>
   (\<forall>bs resp. http_get e (requests s) (requestString (conn s) ''disable'') = Body bs \<and>
         Unmarshal_map e bs [] = Some resp \<and> map_of resp ''status'' = None \<longrightarrow>
      fst (PiHConnector_Disable e s) = Inr (Some ''Something went wrong''))"
  by (auto simp: PiHConnector_Enable_def PiHConnector_Disable_def PiHConnector_Get_def Let_def
      or_fatal_def index_def split: reply.splits option.splits)

theorem Enable_Disable_status_witness:
  "Unmarshal_map env_enabled ''{\"status\":\"enabled\"}'' [] = Some [(''status'', ''enabled'')] \<and>
   fst (PiHConnector_Enable env_enabled sample_state) = Inr None \<and>
   fst (PiHConnector_Disable env_enabled sample_state) = Inr (Some ''Something went wrong'') \<and>
   Unmarshal_map env_empty ''{}'' [] = Some [] \<and>
   fst (PiHConnector_Enable env_empty sample_state) = Inr (Some ''Something went wrong'')"
  using Enable_Disable_status [of env_enabled sample_state]
    Enable_Disable_status [of env_empty sample_state]
  by (simp add: env_enabled_def env_empty_def sample_env_def Unmarshal_map_def index_def)

text \<open>
  Claim C7. When the request succeeds, \<open>RecentBlocked\<close> returns the bytes of the body
  as they are; it does not depend on the JSON scanner at all, so no body, JSON or not,
  is parsed.
\<close>

theorem RecentBlocked_raw:
  "(\<forall>bs. http_get e (requests s) (requestString (conn s) ''recentBlocked'') = Body bs \<longrightarrow>
      fst (PiHConnector_RecentBlocked e s) = Inr bs) \<and>
   (\<forall>scan. PiHConnector_RecentBlocked (e\<lparr>json_scan := scan\<rparr>) s =
      PiHConnector_RecentBlocked e s)"
  by (auto simp: PiHConnector_RecentBlocked_def PiHConnector_Get_def Let_def split: reply.splits)

theorem RecentBlocked_raw_witness:
  "http_get env_other (requests sample_state)
      (requestString (conn sample_state) ''recentBlocked'') = Body ''{\"a\":1}'' \<and>
   json_scan env_other ''{\"a\":1}'' = Some (JObject [(''a'', JNumber ''1'')]) \<and>
   fst (PiHConnector_RecentBlocked env_other sample_state) = Inr ''{\"a\":1}''"
  using RecentBlocked_raw [of env_other sample_state]
  by (simp add: env_other_def sample_env_def)

lemma store_members_None:
  "(k, v) \<in> set ms \<Longrightarrow> st v z = None \<Longrightarrow> store_members st z ms m = None"
  by (induction ms arbitrary: m) (auto split: option.splits)

lemma store_string_None:
  "v \<noteq> JNull \<Longrightarrow> \<forall>x. v \<noteq> JString x \<Longrightarrow> store_string v old = None"
  by (cases v) auto

text \<open>
  Claim C10. When the body of the reply to \<open>enable\<close> is a JSON object whose \<open>status\<close>
  is neither a string nor \<open>null\<close> (a number, a boolean, an array, an object),
  \<open>Unmarshal\<close> fails and \<open>Enable\<close> ends in \<open>log.Fatal\<close>: it does not return the
  error \<open>Something went wrong\<close>. The same holds of \<open>Disable\<close>.
\<close>

theorem Enable_status_not_string:
  "json_scan e bs = Some (JObject ms) \<and> (''status'', v) \<in> set ms \<and> v \<noteq> JNull \<and>
   (\<forall>x. v \<noteq> JString x) \<longrightarrow>
     (http_get e (requests s) (requestString (conn s) ''enable'') = Body bs \<longrightarrow>
        fst (PiHConnector_Enable e s) = Inl FatalUnmarshal \<and>
        fst (PiHConnector_Enable e s) \<noteq> Inr (Some ''Something went wrong'')) \<and>
     (http_get e (requests s) (requestString (conn s) ''disable'') = Body bs \<longrightarrow>
        fst (PiHConnector_Disable e s) = Inl FatalUnmarshal \<and>
        fst (PiHConnector_Disable e s) \<noteq> Inr (Some ''Something went wrong''))"
proof (intro impI, elim conjE)
  assume scan: "json_scan e bs = Some (JObject ms)" and mem: "(''status'', v) \<in> set ms"
    and v: "v \<noteq> JNull" "\<forall>x. v \<noteq> JString x"
  from v have "store_string v [] = None" by (rule store_string_None)
  with mem have "store_members store_string [] ms [] = None" by (rule store_members_None)
  with scan have U: "Unmarshal_map e bs [] = None" by (simp add: Unmarshal_map_def)
  show "(http_get e (requests s) (requestString (conn s) ''enable'') = Body bs \<longrightarrow>
        fst (PiHConnector_Enable e s) = Inl FatalUnmarshal \<and>
        fst (PiHConnector_Enable e s) \<noteq> Inr (Some ''Something went wrong'')) \<and>
     (http_get e (requests s) (requestString (conn s) ''disable'') = Body bs \<longrightarrow>
        fst (PiHConnector_Disable e s) = Inl FatalUnmarshal \<and>
        fst (PiHConnector_Disable e s) \<noteq> Inr (Some ''Something went wrong''))"
    using U
    by (simp add: PiHConnector_Enable_def PiHConnector_Disable_def PiHConnector_Get_def Let_def
        or_fatal_def)
qed

theorem Enable_status_not_string_witness:
  "json_scan env_number ''{\"status\":1}'' = Some (JObject [(''status'', JNumber ''1'')]) \<and>
   http_get env_number (requests sample_state) (requestString (conn sample_state) ''enable'') =
     Body ''{\"status\":1}'' \<and>
   fst (PiHConnector_Enable env_number sample_state) = Inl FatalUnmarshal \<and>
   fst (PiHConnector_Enable env_boolean sample_state) = Inl FatalUnmarshal"
  using Enable_status_not_string [of env_number "''{\"status\":1}''"
      "[(''status'', JNumber ''1'')]" "JNumber ''1''" sample_state]
    Enable_status_not_string [of env_boolean "''{\"status\":true}''"
      "[(''status'', JBool True)]" "JBool True" sample_state]
  by (simp add: env_number_def env_boolean_def sample_env_def)

subsection \<open>\<open>Top\<close> and \<open>Clients\<close>\<close>

lemma digit_value_digit: "u < 10 \<Longrightarrow> digit_value (digit u) = u"
proof -
  assume "u < 10"
  then have "u \<in> {0, 1, 2, 3, 4, 5, 6, 7, 8, 9}" by auto
  then show ?thesis by (auto simp: digit_value_def digit_def)
qed

lemma is_digit_digit: "u < 10 \<Longrightarrow> is_digit (digit u)"
proof -
  assume "u < 10"
  then have "u \<in> {0, 1, 2, 3, 4, 5, 6, 7, 8, 9}" by auto
  then show ?thesis by (auto simp: is_digit_def digit_def)
qed

lemma digits_value_snoc: "digits_value (ds @ [c]) = 10 * digits_value ds + digit_value c"
  by (simp add: digits_value_def)

lemma digits_value_formatBits: "digits_value (formatBits u) = u"
proof (induction u rule: formatBits.induct)
  case (1 u)
  show ?case
  proof (cases "u < 10")
    case True
    then show ?thesis by (simp add: formatBits.simps [of u] digits_value_def digit_value_digit)
  next
    case False
    with 1 show ?thesis
      by (simp add: formatBits.simps [of u] digits_value_snoc digit_value_digit)
  qed
qed

lemma all_digits_formatBits: "list_all is_digit (formatBits u)"
proof (induction u rule: formatBits.induct)
  case (1 u)
  show ?case
  proof (cases "u < 10")
    case True
    then show ?thesis by (simp add: formatBits.simps [of u] is_digit_digit)
  next
    case False
    with 1 show ?thesis by (simp add: formatBits.simps [of u] is_digit_digit)
  qed
qed

lemma formatBits_Cons: "\<exists>c cs. formatBits u = c # cs \<and> is_digit c"
proof -
  have "formatBits u \<noteq> []" by (simp add: formatBits.simps [of u])
  then obtain c cs where eq: "formatBits u = c # cs" by (cases "formatBits u") auto
  with all_digits_formatBits [of u] show ?thesis by simp
qed

lemma decimal_value_Itoa: "decimal_value (Itoa n) = n"
proof (cases "n < 0")
  case True
  then show ?thesis by (simp add: Itoa_def decimal_value_def digits_value_formatBits)
next
  case False
  obtain c cs where eq: "formatBits (nat n) = c # cs" and d: "is_digit c"
    using formatBits_Cons by blast
  from d have "c \<noteq> CHR ''-''" "c \<noteq> CHR ''+''" by (auto simp: is_digit_def)
  moreover have "digits_value (c # cs) = nat n" using digits_value_formatBits [of "nat n"] eq by simp
  ultimately show ?thesis using False eq by (simp add: Itoa_def decimal_value_def)
qed

lemma ParseInt64_Itoa: "- (2 ^ 63) \<le> n \<Longrightarrow> n < 2 ^ 63 \<Longrightarrow> ParseInt64 (Itoa n) = Some n"
proof (cases "n < 0")
  case True
  assume "- (2 ^ 63) \<le> n" "n < 2 ^ 63"
  moreover have "formatBits (nat (- n)) \<noteq> []" using formatBits_Cons [of "nat (- n)"] by auto
  ultimately show ?thesis using True all_digits_formatBits [of "nat (- n)"] decimal_value_Itoa [of n]
    by (simp add: ParseInt64_def Itoa_def)
next
  case False
  assume r: "- (2 ^ 63) \<le> n" "n < 2 ^ 63"
  obtain c cs where eq: "formatBits (nat n) = c # cs" and d: "is_digit c"
    using formatBits_Cons by blast
  from d have "c \<noteq> CHR ''-''" "c \<noteq> CHR ''+''" by (auto simp: is_digit_def)
  then show ?thesis using False r eq all_digits_formatBits [of "nat n"] decimal_value_Itoa [of n]
    by (simp add: ParseInt64_def Itoa_def)
qed

lemma accessor_requests:
  "requests (snd (case PiHConnector_Get e frag s of (Inl f, s') \<Rightarrow> (Inl f, s') | (Inr bs, s') \<Rightarrow> (g bs, s'))) =
     requests s @ [requestString (conn s) frag]"
  by (simp add: PiHConnector_Get_def Let_def split: reply.split)

text \<open>
  Claim C6. For every integer \<open>n\<close>, zero and the negative ones included, \<open>Top(n)\<close>
  requests the fragment \<open>topItems=\<close> and \<open>Clients(n)\<close> the fragment
  \<open>topClients=\<close>, each followed by \<open>Itoa n\<close>, and nothing checks or changes \<open>n\<close>
  on the way. \<open>Itoa n\<close> is \<open>n\<close> in decimal: read as a decimal numeral it is \<open>n\<close>
  again, and \<open>ParseInt\<close> accepts it and returns \<open>n\<close> for every \<open>n\<close> of 64 bits.
\<close>

theorem Top_Clients_fragment:
  "requests (snd (PiHConnector_Top e n s)) =
     requests s @ [requestString (conn s) (''topItems='' @ Itoa n)] \<and>
   requests (snd (PiHConnector_Clients e n s)) =
     requests s @ [requestString (conn s) (''topClients='' @ Itoa n)] \<and>
   decimal_value (Itoa n) = n \<and>
   (- (2 ^ 63) \<le> n \<and> n < 2 ^ 63 \<longrightarrow> ParseInt64 (Itoa n) = Some n)"
  by (simp add: PiHConnector_Top_def PiHConnector_Clients_def accessor_requests
      decimal_value_Itoa ParseInt64_Itoa)

theorem Top_Clients_fragment_witness:
  "requests (snd (PiHConnector_Top (sample_env GetFailed None) 0 sample_state)) =
     [''http://pi.hole/admin/api.php?topItems=0&auth=abc''] \<and>
   requests (snd (PiHConnector_Top (sample_env GetFailed None) 1 sample_state)) =
     [''http://pi.hole/admin/api.php?topItems=1&auth=abc''] \<and>
   requests (snd (PiHConnector_Clients (sample_env GetFailed None) (- 25) sample_state)) =
     [''http://pi.hole/admin/api.php?topClients=-25&auth=abc''] \<and>
   ParseInt64 (Itoa (- 25)) = Some (- 25)"
  using Top_Clients_fragment [of "sample_env GetFailed None" 0 sample_state]
    Top_Clients_fragment [of "sample_env GetFailed None" 1 sample_state]
    Top_Clients_fragment [of "sample_env GetFailed None" "- 25" sample_state]
  by (simp add: sample_state_def sample_conn_def requestString_def Itoa_def digit_def
      formatBits.simps)

subsection \<open>Failures\<close>

lemma fatal_on_failure_decoding:
  "fatal_on_failure e s frag (\<lambda>bs. dec bs = None)
     (fst (case PiHConnector_Get e frag s of
             (Inl f, s') \<Rightarrow> (Inl f, s')
           | (Inr bs, s') \<Rightarrow> (or_fatal (dec bs), s')))"
  by (simp add: fatal_on_failure_def PiHConnector_Get_def Let_def or_fatal_def split: reply.split)

text \<open>
  Claim C3. Every accessor ends in \<open>log.Fatal\<close>, and so returns neither a value nor
  an error, when \<open>http.Get\<close> fails, when reading the body fails, and when
  \<open>json.Unmarshal\<close> fails on the body. \<open>RecentBlocked\<close> decodes nothing, so only
  the first two apply to it.
\<close>

theorem failures_fatal:
  "fatal_on_failure e s ''type'' (\<lambda>bs. Unmarshal_PiHType e bs = None) (fst (PiHConnector_Type e s)) \<and>
   fatal_on_failure e s ''version'' (\<lambda>bs. Unmarshal_PiHVersion e bs = None)
     (fst (PiHConnector_Version e s)) \<and>
   fatal_on_failure e s ''summary'' (\<lambda>bs. Unmarshal_PiHSummary e bs = None)
     (fst (PiHConnector_Summary e s)) \<and>
   fatal_on_failure e s ''overTimeData10mins'' (\<lambda>bs. Unmarshal_PiHTimeData e bs = None)
     (fst (PiHConnector_TimeData e s)) \<and>
   fatal_on_failure e s (''topItems='' @ Itoa n) (\<lambda>bs. Unmarshal_PiHTopItems e bs = None)
     (fst (PiHConnector_Top e n s)) \<and>
   fatal_on_failure e s (''topClients='' @ Itoa n) (\<lambda>bs. Unmarshal_PiHTopClients e bs = None)
     (fst (PiHConnector_Clients e n s)) \<and>
   fatal_on_failure e s ''getForwardDestinations''
     (\<lambda>bs. Unmarshal_PiHForwardDestinations e bs = None)
     (fst (PiHConnector_ForwardDestinations e s)) \<and>
   fatal_on_failure e s ''getQueryTypes'' (\<lambda>bs. Unmarshal_PiHQueryTypes e bs = None)
     (fst (PiHConnector_QueryTypes e s)) \<and>
   fatal_on_failure e s ''getAllQueries'' (\<lambda>bs. Unmarshal_PiHQueries e bs = None)
     (fst (PiHConnector_Queries e s)) \<and>
   fatal_on_failure e s ''enable'' (\<lambda>bs. Unmarshal_map e bs [] = None)
     (fst (PiHConnector_Enable e s)) \<and>
   fatal_on_failure e s ''disable'' (\<lambda>bs. Unmarshal_map e bs [] = None)
     (fst (PiHConnector_Disable e s)) \<and>
   fatal_on_failure e s ''recentBlocked'' (\<lambda>bs. False) (fst (PiHConnector_RecentBlocked e s))"
proof -
  have "fatal_on_failure e s ''enable'' (\<lambda>bs. Unmarshal_map e bs [] = None)
     (fst (PiHConnector_Enable e s))"
    by (simp add: fatal_on_failure_def PiHConnector_Enable_def PiHConnector_Get_def Let_def
        or_fatal_def split: reply.split)
  moreover have "fatal_on_failure e s ''disable'' (\<lambda>bs. Unmarshal_map e bs [] = None)
     (fst (PiHConnector_Disable e s))"
    by (simp add: fatal_on_failure_def PiHConnector_Disable_def PiHConnector_Get_def Let_def
        or_fatal_def split: reply.split)
  moreover have "fatal_on_failure e s ''recentBlocked'' (\<lambda>bs. False)
     (fst (PiHConnector_RecentBlocked e s))"
    by (simp add: fatal_on_failure_def PiHConnector_RecentBlocked_def PiHConnector_Get_def Let_def
        split: reply.split)
  ultimately show ?thesis
    by (simp add: PiHConnector_Type_def PiHConnector_Version_def PiHConnector_Summary_def
        PiHConnector_TimeData_def PiHConnector_Top_def PiHConnector_Clients_def
        PiHConnector_ForwardDestinations_def PiHConnector_QueryTypes_def PiHConnector_Queries_def
        fatal_on_failure_decoding)
qed

theorem failures_fatal_witness:
  "fst (PiHConnector_Summary (sample_env GetFailed None) sample_state) = Inl FatalGet \<and>
   fst (PiHConnector_Summary (sample_env ReadFailed None) sample_state) = Inl FatalRead \<and>
   Unmarshal_PiHSummary (sample_env (Body ''<html>'') None) ''<html>'' = None \<and>
   fst (PiHConnector_Summary (sample_env (Body ''<html>'') None) sample_state) = Inl FatalUnmarshal \<and>
   Unmarshal_PiHType (sample_env (Body ''[]'') (Some (JArray []))) ''[]'' = None \<and>
   fst (PiHConnector_Type (sample_env (Body ''[]'') (Some (JArray []))) sample_state) =
     Inl FatalUnmarshal"
  using failures_fatal [of "sample_env GetFailed None" sample_state 0]
    failures_fatal [of "sample_env ReadFailed None" sample_state 0]
    failures_fatal [of "sample_env (Body ''<html>'') None" sample_state 0]
    failures_fatal [of "sample_env (Body ''[]'') (Some (JArray []))" sample_state 0]
  by (simp add: fatal_on_failure_def sample_env_def Unmarshal_PiHSummary_def
      Unmarshal_PiHType_def Unmarshal_def)

subsection \<open>The connector is only read\<close>

lemma accessor_conn:
  "conn (snd (case PiHConnector_Get e frag s of (Inl f, s') \<Rightarrow> (Inl f, s') | (Inr bs, s') \<Rightarrow> (g bs, s'))) =
     conn s"
  by (simp add: PiHConnector_Get_def Let_def split: reply.split)

lemma Enable_state:
  "snd (PiHConnector_Enable e s) = s\<lparr>requests := requests s @ [requestString (conn s) ''enable'']\<rparr>"
  by (simp add: PiHConnector_Enable_def PiHConnector_Get_def Let_def split: reply.split sum.split)

lemma Disable_state:
  "snd (PiHConnector_Disable e s) = s\<lparr>requests := requests s @ [requestString (conn s) ''disable'']\<rparr>"
  by (simp add: PiHConnector_Disable_def PiHConnector_Get_def Let_def split: reply.split sum.split)

lemma RecentBlocked_state:
  "snd (PiHConnector_RecentBlocked e s) =
     s\<lparr>requests := requests s @ [requestString (conn s) ''recentBlocked'']\<rparr>"
  by (simp add: PiHConnector_RecentBlocked_def PiHConnector_Get_def Let_def split: reply.split)

lemma print_loop_frame:
  "conn (print_loop n reverseMap freq s) = conn s \<and>
   requests (print_loop n reverseMap freq s) = requests s"
  by (induction n arbitrary: s) (simp_all add: Printf_def)

lemma presenters_frame:
  "conn (PiHSummary_Show sm s) = conn s \<and> requests (PiHSummary_Show sm s) = requests s"
  "conn (PiHTopItems_ShowBlocked seed ti s) = conn s \<and>
   requests (PiHTopItems_ShowBlocked seed ti s) = requests s"
  "conn (PiHTopItems_ShowQueries seed ti s) = conn s \<and>
   requests (PiHTopItems_ShowQueries seed ti s) = requests s"
  "conn (PiHTopClients_Show seed tc s) = conn s \<and>
   requests (PiHTopClients_Show seed tc s) = requests s"
  by (simp_all add: PiHSummary_Show_def PiHTopItems_ShowBlocked_def PiHTopItems_ShowQueries_def
      PiHTopClients_Show_def Let_def Println_def Printf_def print_loop_frame split: prod.split)

lemma perform_conn: "conn (snd (perform e c s)) = conn s"
  by (cases c)
    (simp_all add: returning_def PiHConnector_Type_def PiHConnector_Version_def
      PiHConnector_Summary_def PiHConnector_TimeData_def PiHConnector_Top_def
      PiHConnector_Clients_def PiHConnector_ForwardDestinations_def PiHConnector_QueryTypes_def
      PiHConnector_Queries_def accessor_conn Enable_state Disable_state RecentBlocked_state
      presenters_frame)

lemma perform_requests:
  "\<exists>frags. requests (snd (perform e c s)) = requests s @ map (requestString (conn s)) frags"
proof -
  have one: "\<exists>frags. requests s @ [requestString (conn s) x] =
      requests s @ map (requestString (conn s)) frags" for x
    by (rule exI [of _ "[x]"]) simp
  have none: "\<exists>frags. requests s = requests s @ map (requestString (conn s)) frags"
    by (rule exI [of _ "[]"]) simp
  show ?thesis
    by (cases c)
      (simp_all add: returning_def PiHConnector_Type_def PiHConnector_Version_def
        PiHConnector_Summary_def PiHConnector_TimeData_def PiHConnector_Top_def
        PiHConnector_Clients_def PiHConnector_ForwardDestinations_def PiHConnector_QueryTypes_def
        PiHConnector_Queries_def accessor_requests Enable_state Disable_state RecentBlocked_state
        presenters_frame one none del: append_eq_append_conv same_append_eq)
qed

lemma run_frame:
  "conn (run e cs s) = conn s \<and>
   (\<exists>frags. requests (run e cs s) = requests s @ map (requestString (conn s)) frags)"
proof (induction cs arbitrary: s)
  case Nil
  have "\<exists>frags. requests s = requests s @ map (requestString (conn s)) frags"
    by (rule exI [of _ "[]"]) simp
  then show ?case by simp
next
  case (Cons c cs)
  obtain r s' where p: "perform e c s = (r, s')" by (cases "perform e c s")
  have c': "conn s' = conn s" using perform_conn [of e c s] p by simp
  obtain f1 where r1: "requests s' = requests s @ map (requestString (conn s)) f1"
    using perform_requests [of e c s] p by auto
  show ?case
  proof (cases r)
    case (Inl f)
    have "\<exists>frags. requests s' = requests s @ map (requestString (conn s)) frags"
      using r1 by (rule exI [of _ f1])
    with p c' Inl show ?thesis by simp
  next
    case (Inr v)
    from Cons.IH [of s'] obtain f2 where
      "conn (run e cs s') = conn s'"
      "requests (run e cs s') = requests s' @ map (requestString (conn s')) f2" by blast
    with c' r1 have *: "conn (run e cs s') = conn s"
      "requests (run e cs s') = requests s @ map (requestString (conn s)) (f1 @ f2)" by simp_all
    have "\<exists>frags. requests (run e cs s') = requests s @ map (requestString (conn s)) frags"
      using *(2) by (rule exI [of _ "f1 @ f2"])
    with p Inr * show ?thesis by simp
  qed
qed

text \<open>
  Claim C8. No accessor and no presenter changes the connector: after any call, and after
  any run of calls, its host and token are those before, and every URL requested in the
  run was built from them.
\<close>

theorem connector_unchanged:
  "conn (snd (perform e c s)) = conn s \<and>
   conn (run e cs s) = conn s \<and>
   (\<exists>frags. requests (run e cs s) = requests s @ map (requestString (conn s)) frags)"
  using perform_conn run_frame by simp

theorem connector_unchanged_witness:
  "conn (run env_empty
      [CallType, CallEnable, CallSummaryShow PiHSummary_zero, CallTop 3] sample_state) =
     \<lparr>Host = ''pi.hole'', Token = ''abc''\<rparr> \<and>
   requests (run env_empty
      [CallType, CallEnable, CallSummaryShow PiHSummary_zero, CallTop 3] sample_state) =
     [''http://pi.hole/admin/api.php?type&auth=abc'',
      ''http://pi.hole/admin/api.php?enable&auth=abc'',
      ''http://pi.hole/admin/api.php?topItems=3&auth=abc'']"
  using connector_unchanged [of env_empty CallType sample_state
      "[CallType, CallEnable, CallSummaryShow PiHSummary_zero, CallTop 3]"]
  by (simp add: env_empty_def sample_env_def sample_state_def sample_conn_def returning_def
      PiHConnector_Type_def PiHConnector_Enable_def PiHConnector_Top_def PiHConnector_Get_def
      requestString_def Let_def or_fatal_def Unmarshal_PiHType_def Unmarshal_PiHTopItems_def
      Unmarshal_def Unmarshal_map_def index_def PiHSummary_Show_def Println_def Printf_def
      Itoa_def digit_def formatBits.simps)

subsection \<open>The presenters of a mapping\<close>

text \<open>A visit goes through every entry exactly once.\<close>

lemma mset_range_order: "mset (range_order seed xs) = mset xs"
proof (induction seed xs rule: range_order.induct)
  case (1 seed)
  show ?case by simp
next
  case (2 v va)
  show ?case by simp
next
  case (3 n seed v va)
  let ?xs = "v # va"
  let ?i = "n mod length ?xs"
  have i: "?i < length ?xs" by simp
  have "mset ?xs = mset (take ?i ?xs @ ?xs ! ?i # drop (Suc ?i) ?xs)"
    using id_take_nth_drop [OF i] by simp
  moreover have "mset (range_order seed (take ?i ?xs @ drop (Suc ?i) ?xs)) =
      mset (take ?i ?xs @ drop (Suc ?i) ?xs)"
    using 3 by simp
  ultimately show ?case by (simp add: Let_def)
qed

lemma set_range_order: "set (range_order seed xs) = set xs"
  using mset_range_order [of seed xs] by (metis set_mset_mset)

lemma length_range_order: "length (range_order seed xs) = length xs"
  using mset_range_order [of seed xs] by (metis size_mset)

text \<open>Every order of the entries is the order of some visit.\<close>

lemma range_order_any:
  "mset ys = mset xs \<Longrightarrow> \<exists>seed. range_order seed xs = ys"
proof (induction ys arbitrary: xs)
  case Nil
  then have "xs = []" by simp
  then have "range_order [] xs = []" by simp
  then show ?case by (rule exI)
next
  case (Cons y ys)
  from Cons.prems have "y \<in> set xs" by (metis list.set_intros(1) set_mset_mset)
  then obtain i where i: "i < length xs" "xs ! i = y" by (auto simp: in_set_conv_nth)
  let ?rest = "take i xs @ drop (Suc i) xs"
  have "mset xs = mset (take i xs @ y # drop (Suc i) xs)"
    using id_take_nth_drop [OF i(1)] i(2) by simp
  with Cons.prems have "mset ys = mset ?rest" by simp
  from Cons.IH [OF this] obtain seed where seed: "range_order seed ?rest = ys" by blast
  from i(1) obtain v va where xs: "xs = v # va" by (cases xs) auto
  have "range_order (i # seed) xs = y # ys"
    using i seed unfolding xs by (simp add: Let_def)
  then show ?case by (rule exI)
qed

lemma range_loop_snoc:
  "range_loop (kvs @ [(k, v)]) acc =
     (case range_loop kvs acc of (reverseMap, freq) \<Rightarrow> (reverseMap(v \<mapsto> k), freq @ [v]))"
  by (induction kvs arbitrary: acc) (auto split: prod.splits)

lemma survivor_snoc:
  "survivor (kvs @ [(k, v)]) w = (if v = w then k else survivor kvs w)"
  by (simp add: survivor_def Let_def)

lemma range_loop_result:
  "range_loop kvs (Map.empty, []) = (reverseMap, freq) \<Longrightarrow>
     freq = map snd kvs \<and> (\<forall>v. at reverseMap v = survivor kvs v)"
proof (induction kvs arbitrary: reverseMap freq rule: rev_induct)
  case Nil
  then show ?case by (auto simp: at_def survivor_def)
next
  case (snoc e kvs)
  obtain k v where e: "e = (k, v)" by (cases e)
  obtain rm fr where r: "range_loop kvs (Map.empty, []) = (rm, fr)"
    by (cases "range_loop kvs (Map.empty, [])")
  from snoc.IH [OF r] have ih: "fr = map snd kvs" "\<And>w. at rm w = survivor kvs w" by simp_all
  from snoc.prems e r have "reverseMap = rm(v \<mapsto> k)" "freq = fr @ [v]"
    by (simp_all add: range_loop_snoc)
  with ih e show ?case by (simp add: survivor_snoc at_def)
qed

lemma print_loop_stdout:
  "n \<le> length freq \<Longrightarrow>
     stdout (print_loop n reverseMap freq s) =
       stdout s @ map (\<lambda>v. entry_line (at reverseMap v) v) (rev (take n freq))"
proof (induction n arbitrary: s)
  case 0
  show ?case by simp
next
  case (Suc n)
  then have "n < length freq" by simp
  then have "take (Suc n) freq = take n freq @ [freq ! n]" by (rule take_Suc_conv_app_nth)
  with Suc show ?case by (simp add: Printf_def)
qed

lemma sort_range_order: "sort (map snd (range_order seed m)) = sort (map snd m)"
proof -
  have "mset (map snd (range_order seed m)) = mset (map snd m)"
    by (simp add: mset_range_order)
  then show ?thesis by (metis properties_for_sort mset_sort sorted_sort)
qed

lemma show_stdout:
  "stdout
     (let (reverseMap, freq) = range_loop (range_order seed m) (Map.empty, []);
          freq = sort freq;
          s1 = Println title s
      in print_loop (length freq) reverseMap freq s1) =
   stdout s @ listing title seed m"
proof -
  obtain rm fr where r: "range_loop (range_order seed m) (Map.empty, []) = (rm, fr)"
    by (cases "range_loop (range_order seed m) (Map.empty, [])")
  from range_loop_result [OF r] have fr: "fr = map snd (range_order seed m)"
    and rm: "\<And>v. at rm v = survivor (range_order seed m) v" by simp_all
  from r fr rm show ?thesis
    by (simp add: Let_def sort_range_order length_range_order print_loop_stdout listing_def
        Println_def Printf_def)
qed

lemma survivor_mem: "(k, v) \<in> set kvs \<Longrightarrow> (survivor kvs v, v) \<in> set kvs"
proof -
  assume m: "(k, v) \<in> set kvs"
  let ?es = "filter (\<lambda>(k, v'). v' = v) kvs"
  from m have ne: "?es \<noteq> []" by (auto simp: filter_empty_conv)
  then have "last ?es \<in> set ?es" by (rule last_in_set)
  then have "last ?es \<in> set kvs" "snd (last ?es) = v" by auto
  moreover from ne have "survivor kvs v = fst (last ?es)"
    by (simp add: survivor_def Let_def)
  ultimately show ?thesis by (metis prod.collapse)
qed

lemma survivor_other:
  assumes d: "distinct (map fst kvs)" and m: "(k, v) \<in> set kvs" and s: "survivor kvs v \<noteq> k"
    and w: "w \<in> snd ` set kvs"
  shows "survivor kvs w \<noteq> k"
proof
  assume eq: "survivor kvs w = k"
  from w obtain k' where "(k', w) \<in> set kvs" by auto
  then have "(survivor kvs w, w) \<in> set kvs" by (rule survivor_mem)
  with eq have "(k, w) \<in> set kvs" by simp
  with d m have "w = v" by (meson eq_key_imp_eq_value)
  with eq s show False by simp
qed

lemma ShowBlocked_stdout:
  "stdout (PiHTopItems_ShowBlocked seed ti s) =
     stdout s @ listing ''=== Blocked domains over last 24h:'' seed (Blocked ti)"
  unfolding PiHTopItems_ShowBlocked_def by (rule show_stdout)

lemma ShowQueries_stdout:
  "stdout (PiHTopItems_ShowQueries seed ti s) =
     stdout s @ listing ''=== Queries over last 24h:'' seed (Queries ti)"
  unfolding PiHTopItems_ShowQueries_def by (rule show_stdout)

lemma Clients_Show_stdout:
  "stdout (PiHTopClients_Show seed tc s) =
     stdout s @ listing ''=== Clients over last 24h:'' seed (Clients tc)"
  unfolding PiHTopClients_Show_def by (rule show_stdout)

text \<open>
  Claim C9. Each of the three presenters of a mapping prints its title and then exactly
  one line for each entry of the mapping, whatever the order of the visit: the line of an
  entry \<open>(k, v)\<close> shows \<open>v\<close> and the name left for \<open>v\<close> by the inversion, which is
  the name of one of the entries with frequency \<open>v\<close>. So there are as many lines as
  entries, a name left for a frequency is printed once for each entry with that
  frequency, and an entry whose name is not the one left for its frequency never has its
  name printed (the keys of a Go map are distinct).
\<close>

theorem listing_lines:
  "stdout (PiHTopItems_ShowBlocked seed ti s) =
     stdout s @ listing ''=== Blocked domains over last 24h:'' seed (Blocked ti) \<and>
   stdout (PiHTopItems_ShowQueries seed ti s) =
     stdout s @ listing ''=== Queries over last 24h:'' seed (Queries ti) \<and>
   stdout (PiHTopClients_Show seed tc s) =
     stdout s @ listing ''=== Clients over last 24h:'' seed (Clients tc) \<and>
   length (tl (listing title seed m)) = length m \<and>
   mset (tl (listing title seed m)) =
     image_mset (\<lambda>(k, v). entry_line (survivor (range_order seed m) v) v) (mset m) \<and>
   ((k, v) \<in> set m \<longrightarrow> (survivor (range_order seed m) v, v) \<in> set m) \<and>
   (distinct (map fst m) \<and> (k, v) \<in> set m \<and> survivor (range_order seed m) v \<noteq> k \<longrightarrow>
      (\<forall>w \<in> snd ` set m. survivor (range_order seed m) w \<noteq> k))"
proof -
  have d: "length (tl (listing title seed m)) = length m" by (simp add: listing_def)
  have e: "mset (tl (listing title seed m)) =
     image_mset (\<lambda>(k, v). entry_line (survivor (range_order seed m) v) v) (mset m)"
    by (simp add: listing_def image_mset.compositionality comp_def case_prod_unfold)
  have f: "(k, v) \<in> set m \<longrightarrow> (survivor (range_order seed m) v, v) \<in> set m"
    using survivor_mem [of k v "range_order seed m"] by (simp add: set_range_order)
  have g: "distinct (map fst m) \<and> (k, v) \<in> set m \<and> survivor (range_order seed m) v \<noteq> k \<longrightarrow>
      (\<forall>w \<in> snd ` set m. survivor (range_order seed m) w \<noteq> k)"
  proof (intro impI ballI, elim conjE)
    fix w
    assume h: "distinct (map fst m)" "(k, v) \<in> set m" "survivor (range_order seed m) v \<noteq> k"
      "w \<in> snd ` set m"
    have "mset (map fst (range_order seed m)) = mset (map fst m)"
      by (simp add: mset_range_order)
    with h(1) have dist: "distinct (map fst (range_order seed m))"
      by (metis mset_eq_imp_distinct_iff)
    have "(k, v) \<in> set (range_order seed m)" "w \<in> snd ` set (range_order seed m)"
      using h(2,4) by (simp_all add: set_range_order)
    with dist h(3) show "survivor (range_order seed m) w \<noteq> k"
      by (rule_tac survivor_other [of _ k v])
  qed
  show ?thesis
    apply (intro conjI)
    apply (rule ShowBlocked_stdout)
    apply (rule ShowQueries_stdout)
    apply (rule Clients_Show_stdout)
    apply (rule d)
    apply (rule e)
    apply (rule f)
    apply (rule g)
    done
qed

theorem listing_lines_witness:
  "stdout (PiHTopItems_ShowBlocked [] \<lparr>Queries = [], Blocked = sample_top\<rparr> sample_state) =
     [''=== Blocked domains over last 24h:'' @ [CHR 0x0A], ''- b.com : 9'' @ [CHR 0x0A],
      ''- c.com : 5'' @ [CHR 0x0A], ''- c.com : 5'' @ [CHR 0x0A]] \<and>
   length (tl (listing ''=== Blocked domains over last 24h:'' [] sample_top)) = 3 \<and>
   distinct (map fst sample_top) \<and> (''a.com'', 5) \<in> set sample_top \<and>
   survivor (range_order [] sample_top) 5 = ''c.com'' \<and>
   survivor (range_order [] sample_top) 9 \<noteq> ''a.com''"
  using listing_lines [of "[]" "\<lparr>Queries = [], Blocked = sample_top\<rparr>" sample_state
      "\<lparr>Clients = []\<rparr>" "''=== Blocked domains over last 24h:''" sample_top "''a.com''" 5]
  by (simp add: sample_top_def sample_state_def listing_def survivor_def entry_line_def Itoa_def
      digit_def formatBits.simps)

lemma sort_sample_top: "sort (map snd sample_top) = [5, 5, 9]"
  by (simp add: sample_top_def)

lemma entry_line_9: "entry_line ''b.com'' 9 = ''- b.com : 9'' @ [CHR 0x0A]"
  by (simp add: entry_line_def Itoa_def digit_def formatBits.simps)

lemma entry_line_5: "entry_line w 5 = ''- '' @ w @ '' : 5'' @ [CHR 0x0A]"
  by (simp add: entry_line_def Itoa_def digit_def formatBits.simps)

lemma survivor_sample_top:
  "survivor (range_order seed sample_top) 9 = ''b.com'' \<and>
   (survivor (range_order seed sample_top) 5 = ''a.com'' \<or>
    survivor (range_order seed sample_top) 5 = ''c.com'') \<and>
   survivor (range_order seed sample_top) 5 =
     fst (last (filter (\<lambda>(k, v). v = 5) (range_order seed sample_top)))"
proof -
  let ?o = "range_order seed sample_top"
  have s: "set ?o = {(''a.com'', 5), (''b.com'', 9), (''c.com'', 5)}"
    unfolding set_range_order by (simp add: sample_top_def)
  have "(''b.com'', 9) \<in> set ?o" unfolding s by simp
  then have "(survivor ?o 9, 9) \<in> set ?o" by (rule survivor_mem)
  then have a: "survivor ?o 9 = ''b.com''" unfolding s by simp
  have m: "(''a.com'', 5) \<in> set ?o" unfolding s by simp
  then have "(survivor ?o 5, 5) \<in> set ?o" by (rule survivor_mem)
  then have b: "survivor ?o 5 = ''a.com'' \<or> survivor ?o 5 = ''c.com''" unfolding s by simp
  from m have "filter (\<lambda>(k, v). v = 5) ?o \<noteq> []" by (auto simp: filter_empty_conv)
  then have c: "survivor ?o 5 = fst (last (filter (\<lambda>(k, v). v = 5) ?o))"
    by (simp add: survivor_def Let_def)
  from a b c show ?thesis by (intro conjI)
qed

lemma listing_sample_top:
  "listing title seed sample_top =
     [title @ [CHR 0x0A], ''- b.com : 9'' @ [CHR 0x0A],
      ''- '' @ survivor (range_order seed sample_top) 5 @ '' : 5'' @ [CHR 0x0A],
      ''- '' @ survivor (range_order seed sample_top) 5 @ '' : 5'' @ [CHR 0x0A]]"
  using survivor_sample_top [of seed]
  by (simp add: listing_def sort_sample_top entry_line_9 entry_line_5)

text \<open>
  Claim C4. For the mapping \<open>{"a.com": 5, "b.com": 9, "c.com": 5}\<close> both displays of
  top items print, after the title, the line of \<open>b.com : 9\<close> and then two lines of
  frequency 5, both with the same name: of \<open>a.com\<close> and \<open>c.com\<close> exactly one is
  left by the inversion, the one written into the inverted map last, that is the name of
  the last entry of frequency 5 that the \<open>range\<close> loop visits.
\<close>

theorem top_items_example:
  "\<exists>w. (w = ''a.com'' \<or> w = ''c.com'') \<and>
     w = fst (last (filter (\<lambda>(k, v). v = 5) (range_order seed sample_top))) \<and>
     stdout (PiHTopItems_ShowBlocked seed \<lparr>Queries = qs, Blocked = sample_top\<rparr> s) =
       stdout s @
         [''=== Blocked domains over last 24h:'' @ [CHR 0x0A], ''- b.com : 9'' @ [CHR 0x0A],
          ''- '' @ w @ '' : 5'' @ [CHR 0x0A], ''- '' @ w @ '' : 5'' @ [CHR 0x0A]] \<and>
     stdout (PiHTopItems_ShowQueries seed \<lparr>Queries = sample_top, Blocked = bl\<rparr> s) =
       stdout s @
         [''=== Queries over last 24h:'' @ [CHR 0x0A], ''- b.com : 9'' @ [CHR 0x0A],
          ''- '' @ w @ '' : 5'' @ [CHR 0x0A], ''- '' @ w @ '' : 5'' @ [CHR 0x0A]]"
proof -
  let ?w = "survivor (range_order seed sample_top) 5"
  have c: "?w = ''a.com'' \<or> ?w = ''c.com''"
    by (rule survivor_sample_top [of seed, THEN conjunct2, THEN conjunct1])
  have d: "?w = fst (last (filter (\<lambda>(k, v). v = 5) (range_order seed sample_top)))"
    by (rule survivor_sample_top [of seed, THEN conjunct2, THEN conjunct2])
  have a: "stdout (PiHTopItems_ShowBlocked seed \<lparr>Queries = qs, Blocked = sample_top\<rparr> s) =
       stdout s @
         [''=== Blocked domains over last 24h:'' @ [CHR 0x0A], ''- b.com : 9'' @ [CHR 0x0A],
          ''- '' @ ?w @ '' : 5'' @ [CHR 0x0A], ''- '' @ ?w @ '' : 5'' @ [CHR 0x0A]]"
    by (simp add: ShowBlocked_stdout listing_sample_top)
  have b: "stdout (PiHTopItems_ShowQueries seed \<lparr>Queries = sample_top, Blocked = bl\<rparr> s) =
       stdout s @
         [''=== Queries over last 24h:'' @ [CHR 0x0A], ''- b.com : 9'' @ [CHR 0x0A],
          ''- '' @ ?w @ '' : 5'' @ [CHR 0x0A], ''- '' @ ?w @ '' : 5'' @ [CHR 0x0A]]"
    by (simp add: ShowQueries_stdout listing_sample_top)
  from c d a b show ?thesis by (intro exI [of _ ?w] conjI)
qed

theorem top_items_example_witness:
  "stdout (PiHTopItems_ShowBlocked [] \<lparr>Queries = [], Blocked = sample_top\<rparr> sample_state) =
     [''=== Blocked domains over last 24h:'' @ [CHR 0x0A], ''- b.com : 9'' @ [CHR 0x0A],
      ''- c.com : 5'' @ [CHR 0x0A], ''- c.com : 5'' @ [CHR 0x0A]] \<and>
   range_order [2] sample_top = [(''c.com'', 5), (''a.com'', 5), (''b.com'', 9)] \<and>
   stdout (PiHTopItems_ShowBlocked [2] \<lparr>Queries = [], Blocked = sample_top\<rparr> sample_state) =
     [''=== Blocked domains over last 24h:'' @ [CHR 0x0A], ''- b.com : 9'' @ [CHR 0x0A],
      ''- a.com : 5'' @ [CHR 0x0A], ''- a.com : 5'' @ [CHR 0x0A]]"
proof -
  have o1: "range_order [] sample_top = sample_top" by (simp add: sample_top_def)
  have o2: "range_order [2] sample_top = [(''c.com'', 5), (''a.com'', 5), (''b.com'', 9)]"
    by (simp add: sample_top_def)
  have w1: "fst (last (filter (\<lambda>(k, v). v = 5) (range_order [] sample_top))) = ''c.com''"
    unfolding o1 by (simp add: sample_top_def)
  have w2: "fst (last (filter (\<lambda>(k, v). v = 5) (range_order [2] sample_top))) = ''a.com''"
    unfolding o2 by simp
  have s0: "stdout sample_state = []" by (simp add: sample_state_def)
  from top_items_example [of "[]" "[]" sample_state "[]"]
  have a: "stdout (PiHTopItems_ShowBlocked [] \<lparr>Queries = [], Blocked = sample_top\<rparr> sample_state) =
     [''=== Blocked domains over last 24h:'' @ [CHR 0x0A], ''- b.com : 9'' @ [CHR 0x0A],
      ''- c.com : 5'' @ [CHR 0x0A], ''- c.com : 5'' @ [CHR 0x0A]]"
    unfolding w1 s0 by auto
  from top_items_example [of "[2]" "[]" sample_state "[]"]
  have b: "stdout (PiHTopItems_ShowBlocked [2] \<lparr>Queries = [], Blocked = sample_top\<rparr> sample_state) =
     [''=== Blocked domains over last 24h:'' @ [CHR 0x0A], ''- b.com : 9'' @ [CHR 0x0A],
      ''- a.com : 5'' @ [CHR 0x0A], ''- a.com : 5'' @ [CHR 0x0A]]"
    unfolding w2 s0 by auto
  from a o2 b show ?thesis by (intro conjI)
qed

subsection \<open>Decoding the summary\<close>

lemma text_tags: "map fst (PiHSummary_text_fields r) = butlast PiHSummary_tags"
  by (simp add: PiHSummary_text_fields_def PiHSummary_tags_def)

lemma gravity_not_text: "''gravity_last_updated'' \<notin> set (butlast PiHSummary_tags)"
  by (simp add: PiHSummary_tags_def)

lemma tags_split:
  "k \<in> set PiHSummary_tags \<longleftrightarrow> k \<in> set (butlast PiHSummary_tags) \<or> k = ''gravity_last_updated''"
  by (auto simp: PiHSummary_tags_def)

lemma zero_texts: "(t, y) \<in> set (PiHSummary_text_fields PiHSummary_zero) \<Longrightarrow> y = []"
  by (auto simp: PiHSummary_text_fields_def PiHSummary_zero_def)

lemma store_text:
  "t \<in> set (butlast PiHSummary_tags) \<Longrightarrow>
     \<exists>r'. PiHSummary_store fd t (JString x) r = Some r' \<and>
       PiHSummary_text_fields r' =
         map (\<lambda>(t', y). (t', if t' = t then x else y)) (PiHSummary_text_fields r) \<and>
       GravityLastUpdated r' = GravityLastUpdated r"
  apply (simp add: PiHSummary_tags_def)
  apply (elim disjE)
  apply (simp_all add: PiHSummary_store_def PiHSummary_text_fields_def)
  done

lemma store_gravity:
  "PiHSummary_store fd ''gravity_last_updated'' v r =
     map_option (\<lambda>g. r\<lparr>GravityLastUpdated := g\<rparr>)
       (store_GravityLastUpdated fd v (GravityLastUpdated r))"
  by (simp add: PiHSummary_store_def)

lemma text_fields_gravity:
  "PiHSummary_text_fields (r\<lparr>GravityLastUpdated := g\<rparr>) = PiHSummary_text_fields r"
  by (simp add: PiHSummary_text_fields_def)

lemma field_for_exact:
  "k \<in> set tags \<or> (\<forall>t \<in> set tags. fd t \<noteq> fd k) \<Longrightarrow>
     field_for fd tags k = (if k \<in> set tags then Some k else None)"
  by (auto simp: field_for_def find_None_iff)

lemma sent_Cons_other: "t \<noteq> k \<Longrightarrow> sent ((k, v) # ms) t y = sent ms t y"
  by (simp add: sent_def)

lemma sent_Cons_same: "sent ((k, JString x) # ms) k y = x"
  by (simp add: sent_def)

lemma sent_absent: "k \<notin> fst ` set ms \<Longrightarrow> sent ms k y = y"
  by (simp add: sent_def map_of_eq_None_iff [THEN iffD2])

lemma store_fields_texts:
  assumes "distinct (map fst ms)"
    and "\<forall>(k, v) \<in> set ms. k \<in> set PiHSummary_tags \<or>
           (\<forall>t \<in> set PiHSummary_tags. fd t \<noteq> fd k)"
    and "\<forall>(k, v) \<in> set ms. k \<in> set (butlast PiHSummary_tags) \<longrightarrow> (\<exists>x. v = JString x)"
    and "\<forall>(k, v) \<in> set ms. k = ''gravity_last_updated'' \<longrightarrow>
           store_GravityLastUpdated fd v (GravityLastUpdated r) \<noteq> None"
  shows "\<exists>r'. store_fields (field_for fd PiHSummary_tags) (PiHSummary_store fd) ms r = Some r' \<and>
           PiHSummary_text_fields r' =
             map (\<lambda>(t, y). (t, sent ms t y)) (PiHSummary_text_fields r)"
  using assms
proof (induction ms arbitrary: r)
  case Nil
  show ?case by (simp add: sent_def)
next
  case (Cons m ms)
  obtain k v where m: "m = (k, v)" by (cases m)
  from Cons.prems(1) m have dist: "distinct (map fst ms)" and fresh: "k \<notin> fst ` set ms"
    by simp_all
  from Cons.prems(2) m have keys: "\<forall>(k, v) \<in> set ms. k \<in> set PiHSummary_tags \<or>
           (\<forall>t \<in> set PiHSummary_tags. fd t \<noteq> fd k)"
    and fld: "field_for fd PiHSummary_tags k = (if k \<in> set PiHSummary_tags then Some k else None)"
    by (simp_all add: field_for_exact)
  from Cons.prems(3) m have texts:
    "\<forall>(k, v) \<in> set ms. k \<in> set (butlast PiHSummary_tags) \<longrightarrow> (\<exists>x. v = JString x)"
    by simp
  have tag_of: "t \<in> set (butlast PiHSummary_tags)" if "(t, y) \<in> set (PiHSummary_text_fields q)"
    for t y q
  proof -
    from that have "t \<in> set (map fst (PiHSummary_text_fields q))" by force
    then show ?thesis by (simp only: text_tags)
  qed
  consider (nofield) "k \<notin> set PiHSummary_tags"
    | (tfield) "k \<in> set (butlast PiHSummary_tags)"
    | (gfield) "k = ''gravity_last_updated''"
    using tags_split by blast
  then show ?case
  proof cases
    case nofield
    from Cons.prems(4) m have "\<forall>(k, v) \<in> set ms. k = ''gravity_last_updated'' \<longrightarrow>
        store_GravityLastUpdated fd v (GravityLastUpdated r) \<noteq> None" by simp
    from Cons.IH [OF dist keys texts this] obtain r' where
      r': "store_fields (field_for fd PiHSummary_tags) (PiHSummary_store fd) ms r = Some r'"
      "PiHSummary_text_fields r' = map (\<lambda>(t, y). (t, sent ms t y)) (PiHSummary_text_fields r)"
      by blast
    have "map (\<lambda>(t, y). (t, sent ms t y)) (PiHSummary_text_fields r) =
        map (\<lambda>(t, y). (t, sent ((k, v) # ms) t y)) (PiHSummary_text_fields r)"
    proof (rule map_cong [OF refl])
      fix p assume p: "p \<in> set (PiHSummary_text_fields r)"
      obtain t y where ty: "p = (t, y)" by (cases p)
      with p have "t \<in> set (butlast PiHSummary_tags)" using tag_of by simp
      then have "t \<in> set PiHSummary_tags" by (rule in_set_butlastD)
      with nofield have "t \<noteq> k" by auto
      then show "(case p of (t, y) \<Rightarrow> (t, sent ms t y)) =
          (case p of (t, y) \<Rightarrow> (t, sent ((k, v) # ms) t y))"
        by (simp add: ty sent_Cons_other)
    qed
    with r' m fld nofield show ?thesis by simp
  next
    case tfield
    from tfield Cons.prems(3) m obtain x where v: "v = JString x" by auto
    from store_text [OF tfield, of fd x r] obtain r1 where
      r1: "PiHSummary_store fd k (JString x) r = Some r1"
      "PiHSummary_text_fields r1 =
         map (\<lambda>(t', y). (t', if t' = k then x else y)) (PiHSummary_text_fields r)"
      "GravityLastUpdated r1 = GravityLastUpdated r" by blast
    from Cons.prems(4) m r1(3) have "\<forall>(k, v) \<in> set ms. k = ''gravity_last_updated'' \<longrightarrow>
        store_GravityLastUpdated fd v (GravityLastUpdated r1) \<noteq> None" by simp
    from Cons.IH [OF dist keys texts this] obtain r' where
      r': "store_fields (field_for fd PiHSummary_tags) (PiHSummary_store fd) ms r1 = Some r'"
      "PiHSummary_text_fields r' = map (\<lambda>(t, y). (t, sent ms t y)) (PiHSummary_text_fields r1)"
      by blast
    have "map (\<lambda>(t, y). (t, sent ms t y)) (PiHSummary_text_fields r1) =
        map (\<lambda>(t, y). (t, sent ((k, v) # ms) t y)) (PiHSummary_text_fields r)"
      unfolding r1(2) map_map
    proof (rule map_cong [OF refl])
      fix p assume p: "p \<in> set (PiHSummary_text_fields r)"
      obtain t y where ty: "p = (t, y)" by (cases p)
      show "((\<lambda>(t, y). (t, sent ms t y)) \<circ> (\<lambda>(t', y). (t', if t' = k then x else y))) p =
          (case p of (t, y) \<Rightarrow> (t, sent ((k, v) # ms) t y))"
        using fresh by (simp add: ty v sent_Cons_other sent_Cons_same sent_absent)
    qed
    moreover from tfield have "k \<in> set PiHSummary_tags" by (rule in_set_butlastD)
    ultimately show ?thesis using r' r1(1) m fld v by simp
  next
    case gfield
    from gfield Cons.prems(4) m obtain g where
      g: "store_GravityLastUpdated fd v (GravityLastUpdated r) = Some g" by auto
    let ?r1 = "r\<lparr>GravityLastUpdated := g\<rparr>"
    from fresh gfield have "\<forall>(k, v) \<in> set ms. k = ''gravity_last_updated'' \<longrightarrow>
        store_GravityLastUpdated fd v (GravityLastUpdated ?r1) \<noteq> None" by force
    from Cons.IH [OF dist keys texts this] obtain r' where
      r': "store_fields (field_for fd PiHSummary_tags) (PiHSummary_store fd) ms ?r1 = Some r'"
      "PiHSummary_text_fields r' = map (\<lambda>(t, y). (t, sent ms t y)) (PiHSummary_text_fields ?r1)"
      by blast
    have "map (\<lambda>(t, y). (t, sent ms t y)) (PiHSummary_text_fields r) =
        map (\<lambda>(t, y). (t, sent ((k, v) # ms) t y)) (PiHSummary_text_fields r)"
    proof (rule map_cong [OF refl])
      fix p assume p: "p \<in> set (PiHSummary_text_fields r)"
      obtain t y where ty: "p = (t, y)" by (cases p)
      with p have "t \<in> set (butlast PiHSummary_tags)" using tag_of by simp
      with gfield gravity_not_text have "t \<noteq> k" by auto
      then show "(case p of (t, y) \<Rightarrow> (t, sent ms t y)) =
          (case p of (t, y) \<Rightarrow> (t, sent ((k, v) # ms) t y))"
        by (simp add: ty sent_Cons_other)
    qed
    moreover from gfield have "k \<in> set PiHSummary_tags" by (simp add: tags_split)
    ultimately show ?thesis using r' m fld g gfield
      by (simp add: store_gravity text_fields_gravity)
  qed
qed

text \<open>
  Claim C5. When the reply to \<open>summary\<close> is a JSON object with distinct keys, in which
  every key is the tag of a field or matches none, every field of type string has a JSON
  string and \<open>gravity_last_updated\<close> has a value that decodes, \<open>Summary\<close> returns a
  record in which every field of type string holds exactly the string sent under its tag
  (and the empty string when none was sent): nothing is parsed or converted, whatever the
  string looks like.
\<close>

theorem Summary_text_verbatim:
  "http_get e (requests s) (requestString (conn s) ''summary'') = Body bs \<and>
   json_scan e bs = Some (JObject ms) \<and> distinct (map fst ms) \<and>
   (\<forall>(k, v) \<in> set ms.
      (k \<in> set PiHSummary_tags \<or> (\<forall>t \<in> set PiHSummary_tags. fold_name e t \<noteq> fold_name e k)) \<and>
      (k \<in> set PiHSummary_tags \<and> k \<noteq> ''gravity_last_updated'' \<longrightarrow> (\<exists>x. v = JString x)) \<and>
      (k = ''gravity_last_updated'' \<longrightarrow>
         store_GravityLastUpdated (fold_name e) v GravityLastUpdated_zero \<noteq> None)) \<longrightarrow>
   (\<exists>r. fst (PiHConnector_Summary e s) = Inr r \<and>
      (\<forall>(t, x) \<in> set (PiHSummary_text_fields r).
         (\<forall>y. (t, JString y) \<in> set ms \<longrightarrow> x = y) \<and> (t \<notin> fst ` set ms \<longrightarrow> x = [])))"
proof (intro impI, elim conjE)
  assume get: "http_get e (requests s) (requestString (conn s) ''summary'') = Body bs"
    and scan: "json_scan e bs = Some (JObject ms)"
    and dist: "distinct (map fst ms)"
    and wf: "\<forall>(k, v) \<in> set ms.
      (k \<in> set PiHSummary_tags \<or> (\<forall>t \<in> set PiHSummary_tags. fold_name e t \<noteq> fold_name e k)) \<and>
      (k \<in> set PiHSummary_tags \<and> k \<noteq> ''gravity_last_updated'' \<longrightarrow> (\<exists>x. v = JString x)) \<and>
      (k = ''gravity_last_updated'' \<longrightarrow>
         store_GravityLastUpdated (fold_name e) v GravityLastUpdated_zero \<noteq> None)"
  from wf have keys: "\<forall>(k, v) \<in> set ms. k \<in> set PiHSummary_tags \<or>
      (\<forall>t \<in> set PiHSummary_tags. fold_name e t \<noteq> fold_name e k)" by fast
  from wf have texts:
    "\<forall>(k, v) \<in> set ms. k \<in> set (butlast PiHSummary_tags) \<longrightarrow> (\<exists>x. v = JString x)"
    using tags_split gravity_not_text by fast
  from wf have grav: "\<forall>(k, v) \<in> set ms. k = ''gravity_last_updated'' \<longrightarrow>
      store_GravityLastUpdated (fold_name e) v (GravityLastUpdated PiHSummary_zero) \<noteq> None"
    by (simp add: PiHSummary_zero_def) fast
  from store_fields_texts [OF dist keys texts grav] obtain r where
    r: "store_fields (field_for (fold_name e) PiHSummary_tags) (PiHSummary_store (fold_name e)) ms
          PiHSummary_zero = Some r"
    and f: "PiHSummary_text_fields r =
          map (\<lambda>(t, y). (t, sent ms t y)) (PiHSummary_text_fields PiHSummary_zero)"
    by blast
  from get scan r have res: "fst (PiHConnector_Summary e s) = Inr r"
    by (simp add: PiHConnector_Summary_def PiHConnector_Get_def Let_def or_fatal_def
        Unmarshal_PiHSummary_def Unmarshal_def)
  have "(\<forall>y. (t, JString y) \<in> set ms \<longrightarrow> x = y) \<and> (t \<notin> fst ` set ms \<longrightarrow> x = [])"
    if tx: "(t, x) \<in> set (PiHSummary_text_fields r)" for t x
  proof -
    from tx obtain y0 where z: "(t, y0) \<in> set (PiHSummary_text_fields PiHSummary_zero)"
      and x: "x = sent ms t y0" unfolding f by auto
    from z have y0: "y0 = []" by (rule zero_texts)
    have "x = y" if "(t, JString y) \<in> set ms" for y
    proof -
      from dist that have "map_of ms t = Some (JString y)" by (rule map_of_is_SomeI)
      with x show ?thesis by (simp add: sent_def)
    qed
    moreover have "x = []" if "t \<notin> fst ` set ms"
      using that x y0 by (simp add: sent_absent)
    ultimately show ?thesis by blast
  qed
  then have "\<forall>(t, x) \<in> set (PiHSummary_text_fields r).
      (\<forall>y. (t, JString y) \<in> set ms \<longrightarrow> x = y) \<and> (t \<notin> fst ` set ms \<longrightarrow> x = [])" by fast
  with res show "\<exists>r. fst (PiHConnector_Summary e s) = Inr r \<and>
      (\<forall>(t, x) \<in> set (PiHSummary_text_fields r).
         (\<forall>y. (t, JString y) \<in> set ms \<longrightarrow> x = y) \<and> (t \<notin> fst ` set ms \<longrightarrow> x = []))" by blast
qed

lemma sample_gravity:
  "store_GravityLastUpdated (\<lambda>name. name)
     (JObject [(''file_exists'', JBool True), (''absolute'', JNumber ''1700000000''),
               (''relative'', JObject [(''days'', JNumber ''3'')])])
     GravityLastUpdated_zero =
   Some \<lparr>FileExists = True, Absolute = 1700000000, Relative = \<lparr>Days = 3, Hours = 0, Minutes = 0\<rparr>\<rparr>"
  by (simp add: store_GravityLastUpdated_def GravityLastUpdated_store_def store_Relative_def
      Relative_store_def field_for_def GravityLastUpdated_zero_def Relative_zero_def
      ParseInt64_def decimal_value_def digits_value_def digit_value_def is_digit_def)

theorem Summary_text_verbatim_witness:
  "json_scan (sample_env (Body sample_summary_body) (Some (JObject sample_summary))) sample_summary_body = Some (JObject sample_summary) \<and>
   distinct (map fst sample_summary) \<and>
   set (map fst sample_summary) \<subseteq> set PiHSummary_tags \<and>
   (\<exists>r. fst (PiHConnector_Summary (sample_env (Body sample_summary_body) (Some (JObject sample_summary))) sample_state) = Inr r \<and>
      DomainsBeingBlocked r = ''1,234'' \<and> AdsPercentageToday r = ''12.5'' \<and>
      UniqueClients r = ''7'' \<and> Status r = ''enabled'' \<and> DNSQueriesToday r = [])"
proof -
  let ?e = "(sample_env (Body sample_summary_body) (Some (JObject sample_summary)))"
  have scan: "json_scan ?e sample_summary_body = Some (JObject sample_summary)"
    by (simp add: sample_env_def)
  have dist: "distinct (map fst sample_summary)" by (simp add: sample_summary_def)
  have keys: "set (map fst sample_summary) \<subseteq> set PiHSummary_tags"
    by (simp add: sample_summary_def PiHSummary_tags_def)
  have fd: "fold_name ?e = (\<lambda>name. name)" by (simp add: sample_env_def)
  have wf: "\<forall>(k, v) \<in> set sample_summary.
      (k \<in> set PiHSummary_tags \<or> (\<forall>t \<in> set PiHSummary_tags. fold_name ?e t \<noteq> fold_name ?e k)) \<and>
      (k \<in> set PiHSummary_tags \<and> k \<noteq> ''gravity_last_updated'' \<longrightarrow> (\<exists>x. v = JString x)) \<and>
      (k = ''gravity_last_updated'' \<longrightarrow>
         store_GravityLastUpdated (fold_name ?e) v GravityLastUpdated_zero \<noteq> None)"
    unfolding fd using sample_gravity by (simp add: sample_summary_def PiHSummary_tags_def)
  have get: "http_get ?e (requests sample_state) (requestString (conn sample_state) ''summary'') =
      Body sample_summary_body"
    by (simp add: sample_env_def)
  from Summary_text_verbatim [of ?e sample_state sample_summary_body sample_summary]
    get scan dist wf
  obtain r where r: "fst (PiHConnector_Summary ?e sample_state) = Inr r"
    and sent: "\<forall>(t, x) \<in> set (PiHSummary_text_fields r).
         (\<forall>y. (t, JString y) \<in> set sample_summary \<longrightarrow> x = y) \<and>
         (t \<notin> fst ` set sample_summary \<longrightarrow> x = [])"
    by blast
  have f: "(''domains_being_blocked'', DomainsBeingBlocked r) \<in> set (PiHSummary_text_fields r)"
    "(''ads_percentage_today'', AdsPercentageToday r) \<in> set (PiHSummary_text_fields r)"
    "(''unique_clients'', UniqueClients r) \<in> set (PiHSummary_text_fields r)"
    "(''status'', Status r) \<in> set (PiHSummary_text_fields r)"
    "(''dns_queries_today'', DNSQueriesToday r) \<in> set (PiHSummary_text_fields r)"
    by (simp_all add: PiHSummary_text_fields_def)
  have m: "(''domains_being_blocked'', JString ''1,234'') \<in> set sample_summary"
    "(''ads_percentage_today'', JString ''12.5'') \<in> set sample_summary"
    "(''unique_clients'', JString ''7'') \<in> set sample_summary"
    "(''status'', JString ''enabled'') \<in> set sample_summary"
    "''dns_queries_today'' \<notin> fst ` set sample_summary"
    by (simp_all add: sample_summary_def)
  from sent f(1) m(1) have v1: "DomainsBeingBlocked r = ''1,234''" by fast
  from sent f(2) m(2) have v2: "AdsPercentageToday r = ''12.5''" by fast
  from sent f(3) m(3) have v3: "UniqueClients r = ''7''" by fast
  from sent f(4) m(4) have v4: "Status r = ''enabled''" by fast
  from sent f(5) m(5) have v5: "DNSQueriesToday r = []" by fast
  from r v1 v2 v3 v4 v5 have "\<exists>r. fst (PiHConnector_Summary ?e sample_state) = Inr r \<and>
      DomainsBeingBlocked r = ''1,234'' \<and> AdsPercentageToday r = ''12.5'' \<and>
      UniqueClients r = ''7'' \<and> Status r = ''enabled'' \<and> DNSQueriesToday r = []"
    by (intro exI [of _ r] conjI)
  with scan dist keys show ?thesis by (intro conjI)
qed

end
